theory Spec2Isabelle
  imports Main "HOL-Library.Word"
begin

section \<open>Failures\<close>

text \<open>
  Both source files report failure by throwing a \<open>boost::exception\<close> subclass that carries
  tagged pieces of information. A call that can throw returns \<open>failure + 'a\<close>, with
  \<open>Inl\<close> the exception thrown. \<open>msg_info_av_error_str n\<close> is the message
  \<open>av_error_str(n)\<close> that libavutil produces for the code \<open>n\<close>.

  \<open>undefined_behaviour\<close> is not an exception: it marks a point where C++ gives the program
  no defined behaviour (an integer division by zero).
\<close>

datatype error_info =
    msg_info string
  | msg_info_av_error_str int
  | errinfo_api_function string
  | errinfo_errno int

datatype failure =
    invalid_operation "error_info list"
  | operation_failed "error_info list"
  | ffmpeg_error_t "error_info list"
  | bad_rational
  | undefined_behaviour


section \<open>Media Writer (\<open>ffmpeg_consumer\<close>): data model\<close>

text \<open>
  The C++ members carry a trailing underscore (\<open>frame_buffer_\<close>, \<open>graph_\<close>, ...), which
  is not a legal constant name here; the record fields drop it and are otherwise named as in
  \<open>ffmpeg_consumer.cpp\<close>.

  A \<open>core::const_frame\<close> is either empty (\<open>core::const_frame{}\<close>, for which
  \<open>operator bool\<close> is false: the end-of-stream sentinel) or carries a payload.
\<close>

type_synonym 'f const_frame = "'f option"

text \<open>
  \<open>tbb::concurrent_bounded_queue\<close> is a library class. Its contract, as far as the
  consumer uses it: \<open>set_capacity\<close> stores the bound, \<open>try_push\<close> appends and answers
  true when fewer items than the bound are queued, and answers false leaving the queue as it is
  otherwise; \<open>pop\<close> takes the oldest item and blocks while there is none (\<open>None\<close> below).
\<close>

record 'a concurrent_bounded_queue =
  capacity :: int
  items :: "'a list"

definition set_capacity :: "int \<Rightarrow> 'a concurrent_bounded_queue \<Rightarrow> 'a concurrent_bounded_queue" where
  "set_capacity n q = q\<lparr>capacity := n\<rparr>"

definition try_push :: "'a \<Rightarrow> 'a concurrent_bounded_queue \<Rightarrow> bool \<times> 'a concurrent_bounded_queue" where
  "try_push x q =
     (if int (length (items q)) < capacity q then (True, q\<lparr>items := items q @ [x]\<rparr>)
      else (False, q))"

definition pop :: "'a concurrent_bounded_queue \<Rightarrow> ('a \<times> 'a concurrent_bounded_queue) option" where
  "pop q = (case items q of [] \<Rightarrow> None | x # xs \<Rightarrow> Some (x, q\<lparr>items := xs\<rparr>))"

text \<open>
  The diagnostics graph is a sink: the consumer registers two coloured series, sets a text and
  raises tags. The model keeps what was registered and raised, in call order. Colour values and
  the \<open>frame-time\<close> samples are floating-point readings of a wall clock and are left out.
\<close>

datatype tag_severity = WARNING | INFO

record graph =
  colors :: "string list"
  text_of :: string
  tags :: "(tag_severity \<times> string) list"

definition set_color :: "string \<Rightarrow> graph \<Rightarrow> graph" where
  "set_color name g = g\<lparr>colors := colors g @ [name]\<rparr>"

definition set_text :: "string \<Rightarrow> graph \<Rightarrow> graph" where
  "set_text t g = g\<lparr>text_of := t\<rparr>"

definition set_tag :: "tag_severity \<Rightarrow> string \<Rightarrow> graph \<Rightarrow> graph" where
  "set_tag sev name g = g\<lparr>tags := tags g @ [(sev, name)]\<rparr>"

text \<open>
  The fields of \<open>core::video_format_desc\<close> that the consumer reads. The frame rate is the
  pair numerator, denominator.
\<close>

record video_format_desc =
  width :: int
  height :: int
  square_width :: int
  square_height :: int
  duration :: int
  time_scale :: int
  framerate :: "int \<times> int"
  audio_sample_rate :: int
  audio_channels :: int

text \<open>
  \<open>std::thread\<close>: default-constructed it is not joinable; once assigned a started thread it
  stays joinable until \<open>join\<close>, which only the destructor calls. The started thread captures
  the format description by value.
\<close>

datatype thread = not_a_thread | started video_format_desc

fun joinable :: "thread \<Rightarrow> bool" where
  "joinable not_a_thread = False"
| "joinable (started _) = True"

datatype 'a future = ready 'a | not_ready

definition make_ready_future :: "'a \<Rightarrow> 'a future" where
  "make_ready_future v = ready v"

record 'f ffmpeg_consumer =
  channel_index :: int
  format_desc :: "video_format_desc option"
  realtime :: bool
  graph :: graph
  path :: string
  args :: string
  frame_buffer :: "'f const_frame concurrent_bounded_queue"
  frame_thread :: thread

subsection \<open>Constructor, \<open>print\<close>, \<open>initialize\<close>, \<open>send\<close>\<close>

text \<open>
  The constructor. \<open>crc_16\<close> stands for \<open>boost::crc_16_type\<close> applied to the bytes of the
  path. \<open>format_desc_\<close> is default-constructed (\<open>None\<close>) until \<open>initialize\<close>. The frame
  queue starts empty with capacity 1 for a realtime sink and 128 otherwise.
\<close>

definition ffmpeg_consumer_ctor :: "(string \<Rightarrow> int) \<Rightarrow> string \<Rightarrow> string \<Rightarrow> bool \<Rightarrow> 'f ffmpeg_consumer" where
  "ffmpeg_consumer_ctor crc_16 p a rt =
     \<lparr>channel_index = crc_16 p,
      format_desc = None,
      realtime = rt,
      graph = set_color ''dropped-frame'' (set_color ''frame-time''
                \<lparr>colors = [], text_of = [], tags = []\<rparr>),
      path = p,
      args = a,
      frame_buffer = set_capacity (if rt then 1 else 128) \<lparr>capacity = 0, items = []\<rparr>,
      frame_thread = not_a_thread\<rparr>"

definition print :: "'f ffmpeg_consumer \<Rightarrow> string" where
  "print c = ''ffmpeg['' @ path c @ '']''"

text \<open>
  \<open>initialize\<close> throws before it touches any member when the frame thread is joinable. The
  result pairs the outcome (\<open>Inl\<close> the exception) with the consumer as the call leaves it.
\<close>

definition initialize :: "video_format_desc \<Rightarrow> int \<Rightarrow> 'f ffmpeg_consumer \<Rightarrow> (failure + unit) \<times> 'f ffmpeg_consumer" where
  "initialize fd ci c =
     (if joinable (frame_thread c)
      then (Inl (invalid_operation [msg_info ''Cannot reinitialize ffmpeg-consumer.'']), c)
      else
        (let c1 = c\<lparr>format_desc := Some fd\<rparr>;
             c2 = c1\<lparr>channel_index := ci\<rparr>;
             c3 = c2\<lparr>graph := set_text (print c2) (graph c2)\<rparr>
         in (Inr (), c3\<lparr>frame_thread := started fd\<rparr>)))"

definition send :: "'f const_frame \<Rightarrow> 'f ffmpeg_consumer \<Rightarrow> bool future \<times> 'f ffmpeg_consumer" where
  "send frame c =
     (case try_push frame (frame_buffer c) of
        (pushed, q) \<Rightarrow>
          (make_ready_future True,
           if \<not> pushed
           then c\<lparr>frame_buffer := q, graph := set_tag WARNING ''dropped-frame'' (graph c)\<rparr>
           else c\<lparr>frame_buffer := q\<rparr>))"

text \<open>The media thread's \<open>frame_buffer_.pop(frame)\<close>, as a step on the consumer.\<close>

definition media_pop :: "'f ffmpeg_consumer \<Rightarrow> ('f const_frame \<times> 'f ffmpeg_consumer) option" where
  "media_pop c =
     (case pop (frame_buffer c) of
        None \<Rightarrow> None
      | Some (f, q) \<Rightarrow> Some (f, c\<lparr>frame_buffer := q\<rparr>))"

definition dropped_frame_tags :: "'f ffmpeg_consumer \<Rightarrow> nat" where
  "dropped_frame_tags c = length (filter (\<lambda>t. snd t = ''dropped-frame'') (tags (graph c)))"

text \<open>
  The calls that can reach a consumer between two \<open>initialize\<close> calls: \<open>send\<close> from the
  channel, a pop by the media thread (which waits, changing nothing, while the queue is empty),
  and further \<open>initialize\<close> attempts. An exception leaves the consumer as the throwing call
  left it.
\<close>

datatype 'f call = Send "'f const_frame" | Media_pop | Initialize video_format_desc int

fun step :: "'f call \<Rightarrow> 'f ffmpeg_consumer \<Rightarrow> 'f ffmpeg_consumer" where
  "step (Send f) c = snd (send f c)"
| "step Media_pop c = (case media_pop c of None \<Rightarrow> c | Some (_, c') \<Rightarrow> c')"
| "step (Initialize fd ci) c = snd (initialize fd ci c)"

fun steps :: "'f call list \<Rightarrow> 'f ffmpeg_consumer \<Rightarrow> 'f ffmpeg_consumer" where
  "steps [] c = c"
| "steps (x # xs) c = steps xs (step x c)"

section \<open>Pixel Format Resolver (\<open>video_decoder.cpp\<close>)\<close>

text \<open>
  Machine integers: \<open>size_t\<close> is a 64-bit word and \<open>int\<close> a 32-bit word read as two's
  complement (\<open>sint\<close>). \<open>scast\<close> is the conversion from \<open>int\<close> to \<open>size_t\<close> (sign
  extension), \<open>ucast\<close> to a narrower word is the conversion from \<open>size_t\<close> to \<open>int\<close>.
\<close>

type_synonym size_t = "64 word"
type_synonym c_int = "32 word"

text \<open>The quotient of two \<open>int\<close>s in C++ truncates towards zero.\<close>

definition int_div :: "c_int \<Rightarrow> c_int \<Rightarrow> c_int" where
  "int_div a b = word_of_int (sgn (sint a) * sgn (sint b) * (\<bar>sint a\<bar> div \<bar>sint b\<bar>))"

text \<open>
  libavutil's \<open>enum PixelFormat\<close>. The eleven members the switch of \<open>get_pixel_format\<close>
  names are constructors; \<open>PIX_FMT_other n\<close> is any other member, \<open>n\<close> its value.
\<close>

datatype PixelFormat =
    PIX_FMT_GRAY8 | PIX_FMT_BGRA | PIX_FMT_ARGB | PIX_FMT_RGBA | PIX_FMT_ABGR
  | PIX_FMT_YUV444P | PIX_FMT_YUV422P | PIX_FMT_YUV420P | PIX_FMT_YUV411P | PIX_FMT_YUV410P
  | PIX_FMT_YUVA420P
  | PIX_FMT_other int

datatype pixel_format = gray | bgra | argb | rgba | abgr | ycbcr | ycbcra | invalid

fun get_pixel_format :: "PixelFormat \<Rightarrow> pixel_format" where
  "get_pixel_format PIX_FMT_GRAY8 = gray"
| "get_pixel_format PIX_FMT_BGRA = bgra"
| "get_pixel_format PIX_FMT_ARGB = argb"
| "get_pixel_format PIX_FMT_RGBA = rgba"
| "get_pixel_format PIX_FMT_ABGR = abgr"
| "get_pixel_format PIX_FMT_YUV444P = ycbcr"
| "get_pixel_format PIX_FMT_YUV422P = ycbcr"
| "get_pixel_format PIX_FMT_YUV420P = ycbcr"
| "get_pixel_format PIX_FMT_YUV411P = ycbcr"
| "get_pixel_format PIX_FMT_YUV410P = ycbcr"
| "get_pixel_format PIX_FMT_YUVA420P = ycbcra"
| "get_pixel_format (PIX_FMT_other _) = invalid"

text \<open>
  \<open>AVPicture\<close>: four plane pointers and four line sizes. \<open>avpicture_fill\<close> is called with
  a null base pointer, so the pointers it stores are the byte offsets of the planes.
\<close>

record AVPicture =
  data :: "nat \<Rightarrow> size_t"
  linesize :: "nat \<Rightarrow> c_int"

text \<open>
  \<open>core::pixel_format_desc::plane\<close> is declared in \<open>core/producer/frame/pixel_format.h\<close>,
  which is not among the sources. A plane is kept as the three arguments its constructor is
  given: the first (a line size, or a line size divided by 4), the height in rows and the
  number of channels.
\<close>

record plane =
  plane_linesize :: size_t
  plane_height :: size_t
  plane_channels :: size_t

definition plane :: "size_t \<Rightarrow> size_t \<Rightarrow> size_t \<Rightarrow> plane" where
  "plane l h c = \<lparr>plane_linesize = l, plane_height = h, plane_channels = c\<rparr>"

record pixel_format_desc =
  pix_fmt :: pixel_format
  planes :: "plane list"

text \<open>
  \<open>get_pixel_format_desc\<close>. \<open>avpicture_fill\<close> belongs to libavcodec and is a parameter:
  it receives the pixel format and the width and height converted to \<open>int\<close>, and its result
  is the picture it fills in. The chroma height is an unsigned division of \<open>size_t\<close>s; when
  the second line size is zero the division has no defined result.
\<close>

definition get_pixel_format_desc ::
  "(PixelFormat \<Rightarrow> c_int \<Rightarrow> c_int \<Rightarrow> AVPicture) \<Rightarrow> PixelFormat \<Rightarrow> size_t \<Rightarrow> size_t
     \<Rightarrow> failure + pixel_format_desc" where
  "get_pixel_format_desc avpicture_fill pix_fmt_in w h =
     (let dummy_pict = avpicture_fill pix_fmt_in (ucast w) (ucast h);
          fmt = get_pixel_format pix_fmt_in;
          packed = Inr \<lparr>pix_fmt = fmt,
                        planes = [plane (scast (int_div (linesize dummy_pict 0) 4)) h 4]\<rparr>;
          planar =
            (let size2 = data dummy_pict 2 - data dummy_pict 1 in
             if (scast (linesize dummy_pict 1) :: size_t) = 0 then Inl undefined_behaviour
             else
               (let h2 = size2 div scast (linesize dummy_pict 1);
                    three = [plane (scast (linesize dummy_pict 0)) h 1,
                             plane (scast (linesize dummy_pict 1)) h2 1,
                             plane (scast (linesize dummy_pict 2)) h2 1]
                in Inr \<lparr>pix_fmt = fmt,
                         planes = (if fmt = ycbcra
                                   then three @ [plane (scast (linesize dummy_pict 3)) h 1]
                                   else three)\<rparr>))
      in case fmt of
           gray \<Rightarrow> Inr \<lparr>pix_fmt = fmt,
                         planes = [plane (scast (int_div (linesize dummy_pict 0) 4)) h 1]\<rparr>
         | bgra \<Rightarrow> packed
         | argb \<Rightarrow> packed
         | rgba \<Rightarrow> packed
         | abgr \<Rightarrow> packed
         | ycbcr \<Rightarrow> planar
         | ycbcra \<Rightarrow> planar
         | invalid \<Rightarrow> Inr \<lparr>pix_fmt = invalid, planes = []\<rparr>)"



section \<open>Video Decoder (\<open>video_decoder::implementation\<close>)\<close>

text \<open>
  \<open>AVCodecContext\<close>: the fields the decoder reads, and the decoder's internal state
  \<open>'d\<close>, which only libavcodec touches.
\<close>

record 'd AVCodecContext =
  cc_width :: c_int
  cc_height :: c_int
  cc_pix_fmt :: PixelFormat
  codec_id :: int
  internal :: 'd

text \<open>
  The library calls of the decoder. \<open>avcodec_decode_video2\<close> returns the error code, the
  \<open>frame_finished\<close> flag it stores, the picture it decodes into and the context as it
  leaves it. \<open>sws_getContext\<close> answers \<open>None\<close> for a null pointer.
\<close>

record ('d, 'p, 'fr, 'sws) libav =
  avpicture_fill :: "PixelFormat \<Rightarrow> c_int \<Rightarrow> c_int \<Rightarrow> AVPicture"
  sws_getContext :: "c_int \<Rightarrow> c_int \<Rightarrow> PixelFormat \<Rightarrow> c_int \<Rightarrow> c_int \<Rightarrow> PixelFormat \<Rightarrow> 'sws option"
  avcodec_decode_video2 :: "'d AVCodecContext \<Rightarrow> 'p \<Rightarrow> int \<times> int \<times> 'fr \<times> 'd AVCodecContext"
  avcodec_flush_buffers :: "'d AVCodecContext \<Rightarrow> 'd AVCodecContext"

text \<open>
  The members of \<open>implementation\<close>. \<open>codec_context_\<close> is a reference to the context the
  input owns; the decoder is its only writer here. \<open>input_\<close> is passed to \<open>receive\<close>
  separately. \<open>width_\<close>, \<open>height_\<close> and \<open>pix_fmt_\<close> are prefixed because the plain names
  are taken by other records.
\<close>

record ('d, 'sws) implementation =
  sws_context :: "'sws option"
  codec_context :: "'d AVCodecContext"
  impl_width :: c_int
  impl_height :: c_int
  impl_pix_fmt :: PixelFormat
  desc :: pixel_format_desc
  frame_number :: size_t

definition implementation_ctor ::
  "('d, 'p, 'fr, 'sws) libav \<Rightarrow> 'd AVCodecContext \<Rightarrow> failure + ('d, 'sws) implementation" where
  "implementation_ctor av ctx =
     (let w = cc_width ctx; h = cc_height ctx; pf = cc_pix_fmt ctx in
      case get_pixel_format_desc (avpicture_fill av) pf (scast w) (scast h) of
        Inl e \<Rightarrow> Inl e
      | Inr d \<Rightarrow>
          (let s = \<lparr>sws_context = None, codec_context = ctx, impl_width = w, impl_height = h,
                    impl_pix_fmt = pf, desc = d, frame_number = 0\<rparr>
           in if pix_fmt d = invalid
              then
                (case get_pixel_format_desc (avpicture_fill av) PIX_FMT_BGRA (scast w) (scast h) of
                   Inl e \<Rightarrow> Inl e
                 | Inr d' \<Rightarrow>
                     (case sws_getContext av w h pf w h PIX_FMT_BGRA of
                        None \<Rightarrow>
                          Inl (operation_failed
                                 [msg_info ''Could not create software scaling context.'',
                                  errinfo_api_function ''sws_getContext''])
                      | Some sws \<Rightarrow> Inr (s\<lparr>desc := d', sws_context := Some sws\<rparr>)))
              else Inr s))"

text \<open>
  \<open>decode\<close>. A null packet is \<open>None\<close>. \<open>make_write_frame\<close> reads the decoder's members
  (never \<open>frame_number_\<close>) and the decoded picture and fills a frame of the frame factory; it
  is a parameter here, so every result holds whatever the frame contents are. The sequence
  number is the \<open>size_t\<close> counter converted to the \<open>int\<close> of the result pair.
\<close>

definition decode ::
  "('d, 'p, 'fr, 'sws) libav \<Rightarrow> (('d, 'sws) implementation \<Rightarrow> 'fr \<Rightarrow> 'w) \<Rightarrow> 'p option
     \<Rightarrow> ('d, 'sws) implementation \<Rightarrow> (failure + (c_int \<times> 'w) list) \<times> ('d, 'sws) implementation" where
  "decode av make_write_frame video_packet s =
     (case video_packet of
        None \<Rightarrow>
          (Inr [], s\<lparr>codec_context := avcodec_flush_buffers av (codec_context s), frame_number := 0\<rparr>)
      | Some pkt \<Rightarrow>
          (case avcodec_decode_video2 av (codec_context s) pkt of
             (errn, frame_finished, decoded_frame, ctx') \<Rightarrow>
               (let s1 = s\<lparr>codec_context := ctx'\<rparr> in
                if errn < 0
                then (Inl (invalid_operation
                             [msg_info_av_error_str errn,
                              errinfo_api_function ''avcodec_decode_video'',
                              errinfo_errno (- errn)]), s1)
                else if frame_finished \<noteq> 0
                then (Inr [(ucast (frame_number s1), make_write_frame s1 decoded_frame)],
                      s1\<lparr>frame_number := frame_number s1 + 1\<rparr>)
                else (Inr [], s1))))"

text \<open>
  Modelled from the spec: \<open>input::try_pop_video_packet\<close> is defined in \<open>input.cpp\<close>, which
  is not among the sources. The specification: the upstream packet source must expose "try pop
  next compressed video packet or report none available". The input is the list of packets
  it has queued, null packets (\<open>None\<close>) included.
\<close>

definition try_pop_video_packet :: "'p option list \<Rightarrow> ('p option \<times> 'p option list) option" where
  "try_pop_video_packet inp = (case inp of [] \<Rightarrow> None | pkt # rest \<Rightarrow> Some (pkt, rest))"

text \<open>
  \<open>receive\<close>: the \<open>for\<close> loop with its counter \<open>n\<close> and the \<open>result\<close> deque. The three
  conditions are tested in the order of the source, so no packet is popped once \<open>n\<close> has
  reached 32 or \<open>result\<close> holds a frame. An exception of \<open>decode\<close> leaves the loop.
\<close>

function receive_loop ::
  "('d, 'p, 'fr, 'sws) libav \<Rightarrow> (('d, 'sws) implementation \<Rightarrow> 'fr \<Rightarrow> 'w) \<Rightarrow> nat \<Rightarrow> (c_int \<times> 'w) list
     \<Rightarrow> 'p option list \<Rightarrow> ('d, 'sws) implementation
     \<Rightarrow> (failure + (c_int \<times> 'w) list) \<times> 'p option list \<times> ('d, 'sws) implementation" where
  "receive_loop av mk n result inp s =
     (if n < 32 \<and> result = []
      then (case try_pop_video_packet inp of
              None \<Rightarrow> (Inr result, inp, s)
            | Some (pkt, inp') \<Rightarrow>
                (case decode av mk pkt s of
                   (Inl e, s') \<Rightarrow> (Inl e, inp', s')
                 | (Inr frames, s') \<Rightarrow> receive_loop av mk (n + 1) (result @ frames) inp' s'))
      else (Inr result, inp, s))"
  by pat_completeness auto
termination
  by (relation "measure (\<lambda>(av, mk, n, result, inp, s). 32 - n)") auto

declare receive_loop.simps [simp del]

definition receive ::
  "('d, 'p, 'fr, 'sws) libav \<Rightarrow> (('d, 'sws) implementation \<Rightarrow> 'fr \<Rightarrow> 'w)
     \<Rightarrow> 'p option list \<Rightarrow> ('d, 'sws) implementation
     \<Rightarrow> (failure + (c_int \<times> 'w) list) \<times> 'p option list \<times> ('d, 'sws) implementation" where
  "receive av mk inp s = receive_loop av mk 0 [] inp s"

text \<open>
  A run of \<open>decode\<close> over a list of packets, in order, collecting the frames; it ends at the
  first exception.
\<close>

fun decode_all ::
  "('d, 'p, 'fr, 'sws) libav \<Rightarrow> (('d, 'sws) implementation \<Rightarrow> 'fr \<Rightarrow> 'w) \<Rightarrow> 'p option list
     \<Rightarrow> ('d, 'sws) implementation \<Rightarrow> (failure + (c_int \<times> 'w) list) \<times> ('d, 'sws) implementation" where
  "decode_all av mk [] s = (Inr [], s)"
| "decode_all av mk (pkt # pkts) s =
     (case decode av mk pkt s of
        (Inl e, s') \<Rightarrow> (Inl e, s')
      | (Inr frames, s') \<Rightarrow>
          (case decode_all av mk pkts s' of
             (Inl e, s'') \<Rightarrow> (Inl e, s'')
           | (Inr later, s'') \<Rightarrow> (Inr (frames @ later), s'')))"

text \<open>
  Every packet of the list yields a complete frame: along the run, each
  \<open>avcodec_decode_video2\<close> call returns a non-negative code and sets \<open>frame_finished\<close>.
\<close>

fun yields_frames :: "('d, 'p, 'fr, 'sws) libav \<Rightarrow> 'p list \<Rightarrow> 'd AVCodecContext \<Rightarrow> bool" where
  "yields_frames av [] ctx = True"
| "yields_frames av (pkt # pkts) ctx =
     (case avcodec_decode_video2 av ctx pkt of
        (errn, frame_finished, decoded_frame, ctx') \<Rightarrow>
          0 \<le> errn \<and> frame_finished \<noteq> 0 \<and> yields_frames av pkts ctx')"

section \<open>Filter/Encode Stream (\<open>struct Stream\<close> of \<open>ffmpeg_consumer.cpp\<close>)\<close>

subsection \<open>Library data\<close>

text \<open>
  \<open>int64_t\<close> is a 64-bit word read as two's complement. The constants below are macros and
  enumerators of the FFmpeg headers and of \<open>errno.h\<close>, with the values they have there.
\<close>

type_synonym int64_t = "64 word"
type_synonym AVRational = "int \<times> int"

datatype AVMediaType = AVMEDIA_TYPE_VIDEO | AVMEDIA_TYPE_AUDIO | AVMEDIA_TYPE_other int

definition EAGAIN :: int where "EAGAIN = 11"
definition ENOMEM :: int where "ENOMEM = 12"
definition AVERROR :: "int \<Rightarrow> int" where "AVERROR e = - e"
definition AVERROR_EOF :: int where "AVERROR_EOF = - 541478725"
definition AV_CODEC_ID_NONE :: int where "AV_CODEC_ID_NONE = 0"
definition AVFMT_NOFILE :: nat where "AVFMT_NOFILE = 0"

text \<open>
  The four flag constants are kept as bit positions: \<open>flags & F\<close> is \<open>bit flags F\<close> and
  \<open>flags |= F\<close> is \<open>set_bit F flags\<close>.
\<close>

record AVCodec =
  codec_type :: AVMediaType
  capabilities :: "32 word"
  pix_fmts :: "int list"
  sample_fmts :: "int list"
  channel_layouts :: "int list"
  supported_samplerates :: "int list"

record 'ctx AVFilterInOut =
  filter_ctx :: 'ctx
  pad_idx :: int


record AVStream =
  index :: int
  st_time_base :: AVRational

text \<open>
  The encoder context \<open>enc\<close>: \<open>codec_type\<close> is set by \<open>avcodec_alloc_context3\<close> from the
  codec, \<open>frame_size\<close> by \<open>avcodec_open2\<close>, the rest by the constructor. \<open>format\<close> stands
  for \<open>pix_fmt\<close> (video) or \<open>sample_fmt\<close> (audio).
\<close>

record AVCodecContext_enc =
  enc_codec_type :: AVMediaType
  enc_width :: int
  enc_height :: int
  enc_framerate :: AVRational
  enc_sample_aspect_ratio :: AVRational
  enc_time_base :: AVRational
  enc_format :: int
  enc_sample_rate :: int
  enc_channels :: int
  enc_channel_layout :: int
  enc_frame_size :: int
  enc_flags :: "32 word"

text \<open>What the \<open>av_buffersink_get_*\<close> getters read from a configured sink.\<close>

record sink_properties =
  sink_frame_rate :: AVRational
  sink_w :: int
  sink_h :: int
  sink_sample_aspect_ratio :: AVRational
  sink_format :: int
  sink_sample_rate :: int
  sink_channels :: int
  sink_channel_layout :: int

text \<open>
  An \<open>AVFrame\<close> as the stream sees it: the time stamp, the sample count and the rest
  (\<open>'x\<close>). An \<open>AVPacket\<close>: the stream index and the rest (\<open>'y\<close>), which holds the time
  stamps that \<open>av_packet_rescale_ts\<close> rewrites.
\<close>

record 'x AVFrame =
  frame_pts :: int64_t
  nb_samples :: c_int
  frame_data :: 'x

record 'y AVPacket =
  stream_index :: int
  packet_data :: 'y

text \<open>
  The argument string of a buffer source is built with \<open>boost::format\<close>; it is kept as the
  values formatted into it, in the order of the format string.
\<close>

datatype filter_args =
    buffer_args "int \<times> int" int AVRational AVRational AVRational
  | abuffer_args AVRational int int int
  | no_args

text \<open>
  The calls that build and link the filter graph are recorded, in order, with their return
  codes: a created filter with the filter's name, the instance name and the context
  returned; a link with its source context and pad and its destination context and pad.
\<close>

datatype 'ctx graph_call =
    created string string int 'ctx
  | linked 'ctx int 'ctx int int

subsection \<open>The library\<close>

text \<open>
  libavfilter, libavcodec and libavformat keep state of their own behind the pointers the
  consumer holds. All of it is one value \<open>'av\<close>, handed to every call and returned by the
  calls that can change it; the calls themselves are parameters, so the results below hold for
  every behaviour of the library. A call that returns a pointer returns \<open>None\<close> for null.
\<close>

record ('av, 'ctx) libavfilter =
  avcodec_find_encoder :: "int \<Rightarrow> AVCodec option"
  avcodec_find_encoder_by_name :: "string \<Rightarrow> AVCodec option"
  avfilter_graph_alloc :: "'av \<Rightarrow> bool \<times> 'av"
  avfilter_graph_parse2 ::
    "string \<Rightarrow> 'av \<Rightarrow> (int \<times> 'ctx AVFilterInOut list \<times> 'ctx AVFilterInOut list) \<times> 'av"
  avfilter_graph_create_filter :: "string \<Rightarrow> string \<Rightarrow> filter_args \<Rightarrow> 'av \<Rightarrow> (int \<times> 'ctx) \<times> 'av"
  avfilter_link :: "'ctx \<Rightarrow> int \<Rightarrow> 'ctx \<Rightarrow> int \<Rightarrow> 'av \<Rightarrow> int \<times> 'av"
  av_opt_set_int_list :: "'ctx \<Rightarrow> string \<Rightarrow> int list \<Rightarrow> 'av \<Rightarrow> int \<times> 'av"
  avfilter_pad_get_type :: "'ctx \<Rightarrow> int \<Rightarrow> 'av \<Rightarrow> AVMediaType"
  avfilter_graph_config :: "'av \<Rightarrow> int \<times> 'av"
  avformat_new_stream :: "'av \<Rightarrow> AVStream option \<times> 'av"
  avcodec_alloc_context3 :: "AVCodec \<Rightarrow> 'av \<Rightarrow> bool \<times> 'av"
  av_buffersink_get :: "'ctx \<Rightarrow> 'av \<Rightarrow> sink_properties"
  av_get_default_channel_layout :: "int \<Rightarrow> int"
  av_get_channel_layout_nb_channels :: "int \<Rightarrow> int"
  avcodec_open2 ::
    "AVCodecContext_enc \<Rightarrow> AVCodec \<Rightarrow> (string \<rightharpoonup> string) \<Rightarrow> 'av
       \<Rightarrow> (int \<times> int \<times> (string \<rightharpoonup> string)) \<times> 'av"
  avcodec_parameters_from_context :: "AVCodecContext_enc \<Rightarrow> 'av \<Rightarrow> int \<times> 'av"
  av_buffersink_set_frame_size :: "'ctx \<Rightarrow> int \<Rightarrow> 'av \<Rightarrow> 'av"

text \<open>
  The calls of \<open>Stream::send\<close>. \<open>make_av_video_frame\<close> and \<open>make_av_audio_frame\<close> come
  from \<open>util/av_util.h\<close>, which is not among the sources; they build the frame from the
  channel's frame and are parameters as well.
\<close>

record ('av, 'ctx, 'f, 'x, 'y) libavcodec =
  make_av_video_frame :: "'f \<Rightarrow> video_format_desc \<Rightarrow> 'x AVFrame"
  make_av_audio_frame :: "'f \<Rightarrow> video_format_desc \<Rightarrow> 'x AVFrame"
  av_buffersrc_write_frame :: "'ctx option \<Rightarrow> 'x AVFrame option \<Rightarrow> 'av \<Rightarrow> int \<times> 'av"
  av_buffersrc_close :: "'ctx option \<Rightarrow> int64_t \<Rightarrow> 'av \<Rightarrow> int \<times> 'av"
  avcodec_receive_packet :: "AVCodecContext_enc \<Rightarrow> 'av \<Rightarrow> (int \<times> 'y AVPacket) \<times> 'av"
  av_buffersink_get_frame :: "'ctx option \<Rightarrow> 'av \<Rightarrow> (int \<times> 'x AVFrame) \<times> 'av"
  avcodec_send_frame :: "AVCodecContext_enc \<Rightarrow> 'x AVFrame option \<Rightarrow> 'av \<Rightarrow> int \<times> 'av"
  av_packet_rescale_ts :: "'y AVPacket \<Rightarrow> AVRational \<Rightarrow> AVRational \<Rightarrow> 'y AVPacket"

subsection \<open>Exceptions and sequencing\<close>

text \<open>
  A step of a constructor or of a thread body takes the state it works on and returns the
  outcome with the state as the step leaves it; after an exception no later step runs.
\<close>

type_synonym ('s, 'a) action = "'s \<Rightarrow> (failure + 'a) \<times> 's"



definition then_do :: "('s, 'a) action \<Rightarrow> ('a \<Rightarrow> ('s, 'b) action) \<Rightarrow> ('s, 'b) action" where
  "then_do m f = (\<lambda>s. case m s of (Inl e, s') \<Rightarrow> (Inl e, s') | (Inr a, s') \<Rightarrow> f a s')"

text \<open>
  Modelled from the spec: the macros \<open>FF\<close> and \<open>FF_RET\<close> are defined in
  \<open>util/av_assert.h\<close>, which is not among the sources. The specification calls every such
  call "a hard failure point (fail fast, no retry)": a negative return code throws
  \<open>ffmpeg_error_t\<close>, naming the call and the code; any other code continues.
\<close>

definition FF_RET :: "int \<Rightarrow> string \<Rightarrow> failure + unit" where
  "FF_RET ret func =
     (if ret < 0
      then Inl (ffmpeg_error_t [errinfo_api_function func, errinfo_errno (- ret), msg_info_av_error_str ret])
      else Inr ())"

text \<open>
  Where a null pointer is answered by \<open>FF_RET(AVERROR(e), ...)\<close>, the macro throws since the
  code is negative; were it not to throw, the null pointer would be dereferenced next.
\<close>

definition FF_RET_null :: "int \<Rightarrow> string \<Rightarrow> failure" where
  "FF_RET_null ret func = (case FF_RET ret func of Inl e \<Rightarrow> e | Inr _ \<Rightarrow> undefined_behaviour)"


subsection \<open>The stream\<close>

text \<open>
  The members of \<open>Stream\<close>. The graph and the encoder are reached through the library state;
  \<open>sink\<close> and \<open>source\<close> are the contexts \<open>avfilter_graph_create_filter\<close> returned.
\<close>

record ('ctx, 'x) Stream =
  sink :: "'ctx option"
  source :: "'ctx option"
  enc :: AVCodecContext_enc
  st :: AVStream
  pts :: int64_t





subsection \<open>The constructor\<close>

text \<open>
  The constructor works on the library state paired with the record of graph calls.
  \<open>on_lib\<close> runs a library call on the first component.
\<close>

definition on_lib :: "('av \<Rightarrow> 'r \<times> 'av) \<Rightarrow> 'av \<times> 'l \<Rightarrow> 'r \<times> ('av \<times> 'l)" where
  "on_lib call = (\<lambda>(av, l). case call av of (r, av') \<Rightarrow> (r, (av', l)))"



















text \<open>
  The graph-building part keeps its record of calls; every other step of the constructor
  leaves the record as it is.
\<close>

definition keeps_log :: "('av \<times> 'l, 'a) action \<Rightarrow> bool" where
  "keeps_log m = (\<forall>av l r s'. m (av, l) = (r, s') \<longrightarrow> (\<exists>av'. s' = (av', l)))"

definition graph_alloc :: "('av, 'ctx) libavfilter \<Rightarrow> ('av \<times> 'ctx graph_call list, unit) action" where
  "graph_alloc lib =
     (\<lambda>s. case on_lib (avfilter_graph_alloc lib) s of
        (ok, s') \<Rightarrow>
          ((if ok then Inr () else Inl (FF_RET_null (AVERROR ENOMEM) ''avfilter_graph_alloc'')), s'))"

definition graph_parse ::
  "('av, 'ctx) libavfilter \<Rightarrow> string
     \<Rightarrow> ('av \<times> 'ctx graph_call list, 'ctx AVFilterInOut list \<times> 'ctx AVFilterInOut list) action" where
  "graph_parse lib filter_spec =
     (\<lambda>s. case on_lib (avfilter_graph_parse2 lib filter_spec) s of
        ((ret, inputs, outputs), s') \<Rightarrow>
          (case FF_RET ret ''avfilter_graph_parse2'' of
             Inl e \<Rightarrow> Inl e
           | Inr _ \<Rightarrow> Inr (inputs, outputs), s'))"


subsection \<open>\<open>Stream::send\<close>\<close>

text \<open>
  Lines 350 to 361: the frame for a non-empty input frame, stamped from the stream's counter,
  and the stream with the counter advanced (by 1 for video, by the frame's sample count,
  converted to \<open>int64_t\<close>, for audio). For any other media type the frame pointer stays null.
\<close>

definition stamp ::
  "('av, 'ctx, 'f, 'x, 'y) libavcodec \<Rightarrow> 'f \<Rightarrow> video_format_desc \<Rightarrow> ('ctx, 'x) Stream
     \<Rightarrow> 'x AVFrame option \<times> ('ctx, 'x) Stream" where
  "stamp lib in_frame fd s =
     (if enc_codec_type (enc s) = AVMEDIA_TYPE_VIDEO
      then (let frame = (make_av_video_frame lib in_frame fd)\<lparr>frame_pts := pts s\<rparr>
            in (Some frame, s\<lparr>pts := pts s + 1\<rparr>))
      else if enc_codec_type (enc s) = AVMEDIA_TYPE_AUDIO
      then (let frame = (make_av_audio_frame lib in_frame fd)\<lparr>frame_pts := pts s\<rparr>
            in (Some frame, s\<lparr>pts := pts s + scast (nb_samples frame)\<rparr>))
      else (None, s))"

text \<open>
  Lines 367 to 390: the \<open>while (true)\<close> loop. \<open>cb\<close> is the list of packets handed to the
  callback so far. The loop returns only on the paths the source returns or throws on; if the
  library never answers \<open>EAGAIN\<close> or end of file, it does not return (\<open>None\<close>).
\<close>

partial_function (option) drain ::
  "('av, 'ctx, 'f, 'x, 'y) libavcodec \<Rightarrow> ('ctx, 'x) Stream \<Rightarrow> 'y AVPacket list \<Rightarrow> 'av
     \<Rightarrow> ((failure + unit) \<times> 'y AVPacket list \<times> 'av) option" where
  "drain lib s cb av =
     (case avcodec_receive_packet lib (enc s) av of
        ((ret, pkt), av1) \<Rightarrow>
          if ret = AVERROR EAGAIN
          then (case av_buffersink_get_frame lib (sink s) av1 of
                  ((ret2, frame), av2) \<Rightarrow>
                    if ret2 = AVERROR EAGAIN then Some (Inr (), cb, av2)
                    else if ret2 = AVERROR_EOF
                    then (case avcodec_send_frame lib (enc s) None av2 of
                            (ret3, av3) \<Rightarrow>
                              (case FF_RET ret3 ''avcodec_send_frame'' of
                                 Inl e \<Rightarrow> Some (Inl e, cb, av3)
                               | Inr _ \<Rightarrow> drain lib s cb av3))
                    else (case FF_RET ret2 ''av_buffersink_get_frame'' of
                            Inl e \<Rightarrow> Some (Inl e, cb, av2)
                          | Inr _ \<Rightarrow>
                              (case avcodec_send_frame lib (enc s) (Some frame) av2 of
                                 (ret3, av3) \<Rightarrow>
                                   (case FF_RET ret3 ''avcodec_send_frame'' of
                                      Inl e \<Rightarrow> Some (Inl e, cb, av3)
                                    | Inr _ \<Rightarrow> drain lib s cb av3))))
          else if ret = AVERROR_EOF then Some (Inr (), cb, av1)
          else (case FF_RET ret ''avcodec_receive_packet'' of
                  Inl e \<Rightarrow> Some (Inl e, cb, av1)
                | Inr _ \<Rightarrow>
                    drain lib s
                      (cb @ [av_packet_rescale_ts lib (pkt\<lparr>stream_index := index (st s)\<rparr>)
                               (enc_time_base (enc s)) (st_time_base (st s))])
                      av1))"

text \<open>
  \<open>send\<close>: the outcome, the packets handed to the callback (also those handed over before an
  exception), the stream and the library state; \<open>None\<close> if the loop does not return.
\<close>

definition Stream_send ::
  "('av, 'ctx, 'f, 'x, 'y) libavcodec \<Rightarrow> 'f const_frame \<Rightarrow> video_format_desc \<Rightarrow> ('ctx, 'x) Stream \<Rightarrow> 'av
     \<Rightarrow> ((failure + unit) \<times> 'y AVPacket list \<times> ('ctx, 'x) Stream \<times> 'av) option" where
  "Stream_send lib in_frame fd s av =
     (case in_frame of
        Some f \<Rightarrow>
          (case stamp lib f fd s of
             (frame, s1) \<Rightarrow>
               (case av_buffersrc_write_frame lib (source s1) frame av of
                  (ret, av1) \<Rightarrow>
                    (case FF_RET ret ''av_buffersrc_write_frame'' of
                       Inl e \<Rightarrow> Some (Inl e, [], s1, av1)
                     | Inr _ \<Rightarrow>
                         (case drain lib s1 [] av1 of
                            None \<Rightarrow> None
                          | Some (r, cb, av2) \<Rightarrow> Some (r, cb, s1, av2)))))
      | None \<Rightarrow>
          (case av_buffersrc_close lib (source s) (pts s) av of
             (ret, av1) \<Rightarrow>
               (case FF_RET ret ''av_buffersrc_close'' of
                  Inl e \<Rightarrow> Some (Inl e, [], s, av1)
                | Inr _ \<Rightarrow>
                    (case drain lib s [] av1 of
                       None \<Rightarrow> None
                     | Some (r, cb, av2) \<Rightarrow> Some (r, cb, s, av2)))))"

text \<open>
  Successive \<open>send\<close> calls on one stream, as the media thread makes them: the next call
  happens only if the previous one returned without an exception.
\<close>

fun send_all ::
  "('av, 'ctx, 'f, 'x, 'y) libavcodec \<Rightarrow> video_format_desc \<Rightarrow> 'f const_frame list \<Rightarrow> ('ctx, 'x) Stream \<Rightarrow> 'av
     \<Rightarrow> ((failure + unit) \<times> 'y AVPacket list \<times> ('ctx, 'x) Stream \<times> 'av) option" where
  "send_all lib fd [] s av = Some (Inr (), [], s, av)"
| "send_all lib fd (f # fs) s av =
     (case Stream_send lib f fd s av of
        None \<Rightarrow> None
      | Some (Inl e, cb, s1, av1) \<Rightarrow> Some (Inl e, cb, s1, av1)
      | Some (Inr _, cb, s1, av1) \<Rightarrow>
          (case send_all lib fd fs s1 av1 of
             None \<Rightarrow> None
           | Some (r, cb', s2, av2) \<Rightarrow> Some (r, cb @ cb', s2, av2)))"

text \<open>The sample counts of the audio frames made from a list of input frames.\<close>

definition sample_counts ::
  "('av, 'ctx, 'f, 'x, 'y) libavcodec \<Rightarrow> video_format_desc \<Rightarrow> 'f list \<Rightarrow> int list" where
  "sample_counts lib fd fs = map (\<lambda>f. sint (nb_samples (make_av_audio_frame lib f fd))) fs"

text \<open>
  What the filter graph observes. The library state is opaque; \<open>seen\<close> reads from it the
  frames that were written to the graph's source so far, oldest first. A library keeps such
  a record when every \<open>av_buffersrc_write_frame\<close> appends the very frame it is given and no
  other call of \<open>send\<close> changes the record.
\<close>

definition records_source ::
  "('av, 'ctx, 'f, 'x, 'y) libavcodec \<Rightarrow> ('av \<Rightarrow> 'x AVFrame option list) \<Rightarrow> bool" where
  "records_source lib seen =
     ((\<forall>src frame av. seen (snd (av_buffersrc_write_frame lib src frame av)) = seen av @ [frame]) \<and>
      (\<forall>src p av. seen (snd (av_buffersrc_close lib src p av)) = seen av) \<and>
      (\<forall>e av. seen (snd (avcodec_receive_packet lib e av)) = seen av) \<and>
      (\<forall>snk av. seen (snd (av_buffersink_get_frame lib snk av)) = seen av) \<and>
      (\<forall>e frame av. seen (snd (avcodec_send_frame lib e frame av)) = seen av))"

text \<open>The time stamps of the frames in such a record, read as integers.\<close>

fun observed_pts :: "'x AVFrame option list \<Rightarrow> int list" where
  "observed_pts [] = []"
| "observed_pts (Some frame # frames) = sint (frame_pts frame) # observed_pts frames"
| "observed_pts (None # frames) = observed_pts frames"

text \<open>
  What a run of sends is expected to hand to the source, written as a list: the frames made
  from the input frames, each stamped with the running counter.
\<close>

fun stamped_video ::
  "('av, 'ctx, 'f, 'x, 'y) libavcodec \<Rightarrow> video_format_desc \<Rightarrow> int64_t \<Rightarrow> 'f list \<Rightarrow> 'x AVFrame option list" where
  "stamped_video lib fd k [] = []"
| "stamped_video lib fd k (f # fs) =
     Some ((make_av_video_frame lib f fd)\<lparr>frame_pts := k\<rparr>) # stamped_video lib fd (k + 1) fs"

fun stamped_audio ::
  "('av, 'ctx, 'f, 'x, 'y) libavcodec \<Rightarrow> video_format_desc \<Rightarrow> int64_t \<Rightarrow> 'f list \<Rightarrow> 'x AVFrame option list" where
  "stamped_audio lib fd k [] = []"
| "stamped_audio lib fd k (f # fs) =
     Some ((make_av_audio_frame lib f fd)\<lparr>frame_pts := k\<rparr>)
       # stamped_audio lib fd (k + scast (nb_samples (make_av_audio_frame lib f fd))) fs"



section \<open>Media Writer: the media thread and the packet-writer thread\<close>














section \<open>Concrete inputs\<close>

text \<open>A 1080i50 channel format, used where a property is evaluated on a concrete input.\<close>

definition hd1080i50 :: video_format_desc where
  "hd1080i50 =
     \<lparr>width = 1920, height = 1080, square_width = 1920, square_height = 1080,
      duration = 1, time_scale = 25, framerate = (25, 1),
      audio_sample_rate = 48000, audio_channels = 2\<rparr>"

text \<open>
  An example for \<open>avpicture_fill\<close>, used to evaluate the definitions at width 4 and height
  4: the layout of a picture of 4 by 4 pixels without padding, whatever size is asked for. A
  planar format is laid out 4:2:0: a luma plane of 4 rows of 4 bytes, two chroma planes of 2
  rows of 2 bytes, and after them the alpha plane. Every other format is one packed plane of
  16 bytes per row.
\<close>

definition example_fill :: "PixelFormat \<Rightarrow> c_int \<Rightarrow> c_int \<Rightarrow> AVPicture" where
  "example_fill pf w h =
     (if get_pixel_format pf = ycbcr \<or> get_pixel_format pf = ycbcra
      then \<lparr>data = (\<lambda>i. if i = 1 then 16 else if i = 2 then 20 else if i = 3 then 24 else 0),
            linesize = (\<lambda>i. if i = 1 \<or> i = 2 then 2 else 4)\<rparr>
      else \<lparr>data = (\<lambda>i. 0), linesize = (\<lambda>i. if i = 0 then 16 else 0)\<rparr>)"

text \<open>
  A concrete decoder library. Packets are numbers: packet 0 is corrupt (error code -1), an odd
  packet completes a frame, an even one is buffered. The context counts the calls.
\<close>

definition demo_decode_video2 :: "nat AVCodecContext \<Rightarrow> nat \<Rightarrow> int \<times> int \<times> nat \<times> nat AVCodecContext" where
  "demo_decode_video2 ctx pkt =
     (if pkt = 0 then - 1 else 0, if odd pkt then 1 else 0, pkt, ctx\<lparr>internal := internal ctx + 1\<rparr>)"

definition demo_flush_buffers :: "nat AVCodecContext \<Rightarrow> nat AVCodecContext" where
  "demo_flush_buffers ctx = ctx\<lparr>internal := 0\<rparr>"

definition demo_sws_getContext ::
  "c_int \<Rightarrow> c_int \<Rightarrow> PixelFormat \<Rightarrow> c_int \<Rightarrow> c_int \<Rightarrow> PixelFormat \<Rightarrow> unit option" where
  "demo_sws_getContext w h src w' h' dst = (if w = 0 \<or> h = 0 then None else Some ())"

definition demo_libav :: "(nat, nat, nat, unit) libav" where
  "demo_libav =
     \<lparr>avpicture_fill = example_fill, sws_getContext = demo_sws_getContext,
      avcodec_decode_video2 = demo_decode_video2, avcodec_flush_buffers = demo_flush_buffers\<rparr>"

definition demo_make_write_frame :: "(nat, unit) implementation \<Rightarrow> nat \<Rightarrow> nat" where
  "demo_make_write_frame s fr = fr"

definition demo_codec_context :: "PixelFormat \<Rightarrow> c_int \<Rightarrow> c_int \<Rightarrow> nat AVCodecContext" where
  "demo_codec_context pf w h =
     \<lparr>cc_width = w, cc_height = h, cc_pix_fmt = pf, codec_id = 0, internal = 0\<rparr>"

text \<open>The decoder that the constructor builds for a 4 by 4 picture in \<open>PIX_FMT_YUV420P\<close>.\<close>

definition demo_decoder :: "(nat, unit) implementation" where
  "demo_decoder =
     \<lparr>sws_context = None, codec_context = demo_codec_context PIX_FMT_YUV420P 4 4,
      impl_width = 4, impl_height = 4, impl_pix_fmt = PIX_FMT_YUV420P,
      desc = \<lparr>pix_fmt = ycbcr, planes = [plane 4 4 1, plane 2 2 1, plane 2 2 1]\<rparr>,
      frame_number = 0\<rparr>"

text \<open>
  A concrete filter graph and encoder, both passing frames through one at a time: the state
  holds the frames waiting in the graph and in the encoder, remembers whether the source
  was closed and the encoder flushed, and keeps every frame written to the source
  (\<open>source_log\<close>). Frames and packets carry a number.
\<close>

record demo_av =
  in_graph :: "nat list"
  in_encoder :: "nat list"
  graph_closed :: bool
  encoder_flushed :: bool
  source_log :: "nat AVFrame option list"

definition demo_make_frame :: "nat \<Rightarrow> video_format_desc \<Rightarrow> nat AVFrame" where
  "demo_make_frame f fd = \<lparr>frame_pts = 12345, nb_samples = 960, frame_data = f\<rparr>"

definition demo_write_frame :: "nat option \<Rightarrow> nat AVFrame option \<Rightarrow> demo_av \<Rightarrow> int \<times> demo_av" where
  "demo_write_frame src frame av =
     (case frame of
        None \<Rightarrow> (0, av\<lparr>graph_closed := True, source_log := source_log av @ [frame]\<rparr>)
      | Some fr \<Rightarrow> (0, av\<lparr>in_graph := in_graph av @ [frame_data fr],
                            source_log := source_log av @ [frame]\<rparr>))"

definition demo_close :: "nat option \<Rightarrow> int64_t \<Rightarrow> demo_av \<Rightarrow> int \<times> demo_av" where
  "demo_close src p av = (0, av\<lparr>graph_closed := True\<rparr>)"

definition demo_receive_packet :: "AVCodecContext_enc \<Rightarrow> demo_av \<Rightarrow> (int \<times> nat AVPacket) \<times> demo_av" where
  "demo_receive_packet e av =
     (case in_encoder av of
        x # xs \<Rightarrow> ((0, \<lparr>stream_index = - 1, packet_data = x\<rparr>), av\<lparr>in_encoder := xs\<rparr>)
      | [] \<Rightarrow> ((if encoder_flushed av then AVERROR_EOF else AVERROR EAGAIN,
                \<lparr>stream_index = - 1, packet_data = 0\<rparr>), av))"

definition demo_get_frame :: "nat option \<Rightarrow> demo_av \<Rightarrow> (int \<times> nat AVFrame) \<times> demo_av" where
  "demo_get_frame snk av =
     (case in_graph av of
        x # xs \<Rightarrow> ((0, \<lparr>frame_pts = 0, nb_samples = 0, frame_data = x\<rparr>), av\<lparr>in_graph := xs\<rparr>)
      | [] \<Rightarrow> ((if graph_closed av then AVERROR_EOF else AVERROR EAGAIN,
                \<lparr>frame_pts = 0, nb_samples = 0, frame_data = 0\<rparr>), av))"

definition demo_send_frame :: "AVCodecContext_enc \<Rightarrow> nat AVFrame option \<Rightarrow> demo_av \<Rightarrow> int \<times> demo_av" where
  "demo_send_frame e frame av =
     (case frame of
        None \<Rightarrow> (0, av\<lparr>encoder_flushed := True\<rparr>)
      | Some fr \<Rightarrow> (0, av\<lparr>in_encoder := in_encoder av @ [frame_data fr]\<rparr>))"

definition demo_rescale_ts :: "nat AVPacket \<Rightarrow> AVRational \<Rightarrow> AVRational \<Rightarrow> nat AVPacket" where
  "demo_rescale_ts pkt a b = pkt"

definition demo_libavcodec :: "(demo_av, nat, nat, nat, nat) libavcodec" where
  "demo_libavcodec =
     \<lparr>make_av_video_frame = demo_make_frame, make_av_audio_frame = demo_make_frame,
      av_buffersrc_write_frame = demo_write_frame, av_buffersrc_close = demo_close,
      avcodec_receive_packet = demo_receive_packet, av_buffersink_get_frame = demo_get_frame,
      avcodec_send_frame = demo_send_frame, av_packet_rescale_ts = demo_rescale_ts\<rparr>"

definition demo_av0 :: demo_av where
  "demo_av0 =
     \<lparr>in_graph = [], in_encoder = [], graph_closed = False, encoder_flushed = False,
      source_log = []\<rparr>"

definition demo_enc :: "AVMediaType \<Rightarrow> AVCodecContext_enc" where
  "demo_enc t =
     \<lparr>enc_codec_type = t, enc_width = 1920, enc_height = 1080, enc_framerate = (25, 1),
      enc_sample_aspect_ratio = (1, 1), enc_time_base = (1, 25), enc_format = 0,
      enc_sample_rate = 48000, enc_channels = 2, enc_channel_layout = 3, enc_frame_size = 0,
      enc_flags = 0\<rparr>"

definition demo_stream :: "AVMediaType \<Rightarrow> int \<Rightarrow> (nat, nat) Stream" where
  "demo_stream t i =
     \<lparr>sink = Some 1, source = Some 0, enc = demo_enc t,
      st = \<lparr>index = i, st_time_base = (1, 25)\<rparr>, pts = 0\<rparr>"








section \<open>Media Writer: properties of \<open>send\<close> and \<open>initialize\<close>\<close>

lemma try_push_full:
  "capacity q \<le> int (length (items q)) \<Longrightarrow> try_push x q = (False, q)"
  by (simp add: try_push_def)

lemma try_push_room:
  "int (length (items q)) < capacity q \<Longrightarrow> try_push x q = (True, q\<lparr>items := items q @ [x]\<rparr>)"
  by (simp add: try_push_def)

lemma send_frame_thread: "frame_thread (snd (send f c)) = frame_thread c"
  by (simp add: send_def split: prod.splits)

lemma media_pop_frame_thread: "media_pop c = Some (f, c') \<Longrightarrow> frame_thread c' = frame_thread c"
  by (auto simp: media_pop_def split: option.splits)

lemma initialize_joinable: "initialize fd ci c = (Inr u, c') \<Longrightarrow> joinable (frame_thread c')"
  by (auto simp: initialize_def Let_def split: if_splits)

lemma initialize_keeps_joinable: "joinable (frame_thread c) \<Longrightarrow> snd (initialize fd ci c) = c"
  by (simp add: initialize_def)

lemma step_keeps_joinable: "joinable (frame_thread c) \<Longrightarrow> joinable (frame_thread (step x c))"
proof (cases x)
  case (Send f)
  assume "joinable (frame_thread c)"
  with Send show ?thesis by (simp add: send_frame_thread)
next
  case Media_pop
  assume j: "joinable (frame_thread c)"
  show ?thesis
  proof (cases "media_pop c")
    case None
    with Media_pop j show ?thesis by simp
  next
    case (Some r)
    obtain f c' where r: "r = (f, c')" by (cases r)
    with Some have "frame_thread c' = frame_thread c" by (simp add: media_pop_frame_thread)
    with Media_pop Some r j show ?thesis by simp
  qed
next
  case (Initialize fd ci)
  assume "joinable (frame_thread c)"
  with Initialize show ?thesis by (simp add: initialize_keeps_joinable)
qed

lemma steps_keep_joinable: "joinable (frame_thread c) \<Longrightarrow> joinable (frame_thread (steps xs c))"
  by (induction xs arbitrary: c) (simp_all add: step_keeps_joinable)

lemma ctor_realtime_queue:
  "frame_buffer (ffmpeg_consumer_ctor crc_16 p a True) = \<lparr>capacity = 1, items = []\<rparr>"
  by (simp add: ffmpeg_consumer_ctor_def set_capacity_def)

lemma send_into_room:
  assumes "int (length (items (frame_buffer c))) < capacity (frame_buffer c)"
  shows "send f c = (ready True, c\<lparr>frame_buffer := (frame_buffer c)\<lparr>items := items (frame_buffer c) @ [f]\<rparr>\<rparr>)"
  using assms by (simp add: send_def try_push_room make_ready_future_def)

lemma send_when_full:
  assumes "capacity (frame_buffer c) \<le> int (length (items (frame_buffer c)))"
  shows "send f c = (ready True, c\<lparr>graph := set_tag WARNING ''dropped-frame'' (graph c)\<rparr>)"
  using assms by (simp add: send_def try_push_full make_ready_future_def)

text \<open>
  C10. \<open>send\<close> answers a future that is already ready and holds \<open>true\<close>, whatever the frame
  and the state of the queue. When the queue is full the frame is dropped: the queue is as it
  was and the only change to the consumer is one more \<open>dropped-frame\<close> warning tag on the
  diagnostics graph. When there is room the frame is appended and no tag is raised.
\<close>

theorem send_returns_ready_true:
  "fst (send f c) = ready True \<and>
   (capacity (frame_buffer c) \<le> int (length (items (frame_buffer c))) \<longrightarrow>
      snd (send f c) = c\<lparr>graph := (graph c)\<lparr>tags := tags (graph c) @ [(WARNING, ''dropped-frame'')]\<rparr>\<rparr>) \<and>
   (int (length (items (frame_buffer c))) < capacity (frame_buffer c) \<longrightarrow>
      items (frame_buffer (snd (send f c))) = items (frame_buffer c) @ [f] \<and>
      graph (snd (send f c)) = graph c)"
proof (cases "int (length (items (frame_buffer c))) < capacity (frame_buffer c)")
  case True
  then show ?thesis by (simp add: send_into_room)
next
  case False
  then have "capacity (frame_buffer c) \<le> int (length (items (frame_buffer c)))" by simp
  then show ?thesis by (simp add: send_when_full set_tag_def)
qed

theorem send_returns_ready_true_witness:
  "fst (send (Some (2::nat)) (snd (send (Some 1) (ffmpeg_consumer_ctor (of_nat \<circ> length) ''out.mp4'' [] True))))
     = ready True \<and>
   tags (graph (snd (send (Some (2::nat)) (snd (send (Some 1) (ffmpeg_consumer_ctor (of_nat \<circ> length) ''out.mp4'' [] True))))))
     = [(WARNING, ''dropped-frame'')]"
  using send_returns_ready_true [of "Some (2::nat)"
      "snd (send (Some 1) (ffmpeg_consumer_ctor (of_nat \<circ> length) ''out.mp4'' [] True))"]
  by (simp add: send_def try_push_def make_ready_future_def ffmpeg_consumer_ctor_def
      set_capacity_def set_color_def set_tag_def)

text \<open>
  C1, as the specification states it: after two frames are sent to a realtime consumer whose
  queue nobody pops, one \<open>dropped-frame\<close> tag is recorded and the queue holds only the second
  frame. The code keeps the first frame: \<open>try_push\<close> refuses the second one and never
  replaces what is queued.
\<close>

theorem realtime_latest_frame_wins_counterexample:
  "\<not> (dropped_frame_tags (snd (send (Some (2::nat)) (snd (send (Some 1)
          (ffmpeg_consumer_ctor (of_nat \<circ> length) ''out.mp4'' [] True))))) = 1 \<and>
      items (frame_buffer (snd (send (Some (2::nat)) (snd (send (Some 1)
          (ffmpeg_consumer_ctor (of_nat \<circ> length) ''out.mp4'' [] True)))))) = [Some 2])"
  by (simp add: send_def try_push_def make_ready_future_def ffmpeg_consumer_ctor_def
      set_capacity_def set_color_def set_tag_def dropped_frame_tags_def)

text \<open>
  C1, as the code has it: on a consumer whose frame queue has capacity 1 (what the constructor
  sets for a realtime sink) and is empty, two sends with no pop in between record exactly one
  \<open>dropped-frame\<close> tag and leave exactly the first of the two frames in the queue; the second
  frame is the one dropped.
\<close>

theorem realtime_second_frame_dropped:
  assumes "capacity (frame_buffer c) = 1" and "items (frame_buffer c) = []"
  shows "items (frame_buffer (snd (send f2 (snd (send f1 c))))) = [f1] \<and>
         tags (graph (snd (send f2 (snd (send f1 c))))) = tags (graph c) @ [(WARNING, ''dropped-frame'')] \<and>
         dropped_frame_tags (snd (send f2 (snd (send f1 c)))) = dropped_frame_tags c + 1"
proof -
  let ?c1 = "c\<lparr>frame_buffer := (frame_buffer c)\<lparr>items := items (frame_buffer c) @ [f1]\<rparr>\<rparr>"
  have s1: "snd (send f1 c) = ?c1"
    using assms by (simp add: send_into_room)
  have full: "capacity (frame_buffer ?c1) \<le> int (length (items (frame_buffer ?c1)))"
    using assms by simp
  have s2: "snd (send f2 ?c1) = ?c1\<lparr>graph := set_tag WARNING ''dropped-frame'' (graph ?c1)\<rparr>"
    by (simp only: send_when_full [OF full] snd_conv)
  show ?thesis
    unfolding s1 s2 using assms by (simp add: set_tag_def dropped_frame_tags_def)
qed

theorem realtime_second_frame_dropped_witness:
  "items (frame_buffer (snd (send (Some (2::nat)) (snd (send (Some 1)
      (ffmpeg_consumer_ctor (of_nat \<circ> length) ''out.mp4'' [] True)))))) = [Some 1] \<and>
   dropped_frame_tags (snd (send (Some (2::nat)) (snd (send (Some 1)
      (ffmpeg_consumer_ctor (of_nat \<circ> length) ''out.mp4'' [] True))))) = 1"
  using realtime_second_frame_dropped [of "ffmpeg_consumer_ctor (of_nat \<circ> length) ''out.mp4'' [] True"
      "Some (2::nat)" "Some 1"]
  by (simp add: ctor_realtime_queue)
    (simp add: ffmpeg_consumer_ctor_def set_color_def dropped_frame_tags_def)

text \<open>
  C8. Once \<open>initialize\<close> has succeeded on a consumer, every later \<open>initialize\<close> on it,
  after any sequence of sends, pops by the media thread and earlier failed attempts, throws
  \<open>invalid_operation\<close> and leaves the consumer exactly as it found it. So \<open>initialize\<close>
  succeeds at most once per instance.
\<close>

theorem initialize_succeeds_at_most_once:
  assumes "initialize fd ci c = (Inr u, c1)"
  shows "initialize fd' ci' (steps calls c1) =
           (Inl (invalid_operation [msg_info ''Cannot reinitialize ffmpeg-consumer.'']), steps calls c1)"
proof -
  from assms have "joinable (frame_thread c1)" by (rule initialize_joinable)
  then have "joinable (frame_thread (steps calls c1))" by (rule steps_keep_joinable)
  then show ?thesis by (simp add: initialize_def)
qed

theorem initialize_succeeds_at_most_once_witness:
  "initialize hd1080i50 1 (ffmpeg_consumer_ctor (of_nat \<circ> length) ''out.mp4'' [] False)
     = (Inr (), snd (initialize hd1080i50 1
          (ffmpeg_consumer_ctor (of_nat \<circ> length) ''out.mp4'' [] False :: nat ffmpeg_consumer))) \<and>
   fst (initialize hd1080i50 2
     (steps [Send (Some (1::nat)), Media_pop, Initialize hd1080i50 3, Send None]
        (snd (initialize hd1080i50 1 (ffmpeg_consumer_ctor (of_nat \<circ> length) ''out.mp4'' [] False)))))
     = Inl (invalid_operation [msg_info ''Cannot reinitialize ffmpeg-consumer.''])"
proof -
  have first: "initialize hd1080i50 1 (ffmpeg_consumer_ctor (of_nat \<circ> length) ''out.mp4'' [] False)
     = (Inr (), snd (initialize hd1080i50 1
          (ffmpeg_consumer_ctor (of_nat \<circ> length) ''out.mp4'' [] False :: nat ffmpeg_consumer)))"
    by (simp add: initialize_def ffmpeg_consumer_ctor_def Let_def)
  show ?thesis
    using first
      initialize_succeeds_at_most_once [OF first, of hd1080i50 2
        "[Send (Some (1::nat)), Media_pop, Initialize hd1080i50 3, Send None]"]
    by simp
qed

section \<open>Video Decoder: sequence numbers, \<open>receive\<close>, pixel formats\<close>

lemma decode_eof:
  "decode av mk None s =
     (Inr [], s\<lparr>codec_context := avcodec_flush_buffers av (codec_context s), frame_number := 0\<rparr>)"
  by (simp add: decode_def)

lemma decode_complete_frame:
  assumes "avcodec_decode_video2 av (codec_context s) pkt = (errn, ff, fr, ctx')"
    and "0 \<le> errn" and "ff \<noteq> 0"
  shows "decode av mk (Some pkt) s =
           (Inr [(ucast (frame_number s), mk (s\<lparr>codec_context := ctx'\<rparr>) fr)],
            s\<lparr>codec_context := ctx', frame_number := frame_number s + 1\<rparr>)"
  using assms by (simp add: decode_def Let_def)

lemma decode_at_most_one:
  "decode av mk pkt s = (Inr frames, s') \<Longrightarrow> length frames \<le> 1"
  by (auto simp: decode_def Let_def split: option.splits prod.splits if_splits)

lemma decode_all_numbers:
  assumes "yields_frames av pkts (codec_context s)"
  shows "\<exists>frames s'. decode_all av mk (map Some pkts) s = (Inr frames, s') \<and>
           map fst frames = map (\<lambda>k. ucast (frame_number s + word_of_nat k)) [0..<length pkts] \<and>
           frame_number s' = frame_number s + word_of_nat (length pkts)"
  using assms
proof (induction pkts arbitrary: s)
  case Nil
  then show ?case by simp
next
  case (Cons pkt pkts)
  obtain errn ff fr ctx' where d: "avcodec_decode_video2 av (codec_context s) pkt = (errn, ff, fr, ctx')"
    by (cases "avcodec_decode_video2 av (codec_context s) pkt") auto
  with Cons.prems have ok: "0 \<le> errn" "ff \<noteq> 0" and rest: "yields_frames av pkts ctx'"
    by simp_all
  let ?s1 = "s\<lparr>codec_context := ctx', frame_number := frame_number s + 1\<rparr>"
  have step: "decode av mk (Some pkt) s =
      (Inr [(ucast (frame_number s), mk (s\<lparr>codec_context := ctx'\<rparr>) fr)], ?s1)"
    by (rule decode_complete_frame [OF d ok])
  from rest have "yields_frames av pkts (codec_context ?s1)" by simp
  from Cons.IH [OF this] obtain frames s' where
    run: "decode_all av mk (map Some pkts) ?s1 = (Inr frames, s')"
    and tags: "map fst frames = map (\<lambda>k. ucast (frame_number ?s1 + word_of_nat k)) [0..<length pkts]"
    and fn: "frame_number s' = frame_number ?s1 + word_of_nat (length pkts)"
    by blast
  have "map (\<lambda>k. (ucast (frame_number s + word_of_nat k) :: c_int)) [0..<length (pkt # pkts)]
      = ucast (frame_number s) # map (\<lambda>k. ucast (frame_number s + 1 + word_of_nat k)) [0..<length pkts]"
    by (simp add: upt_conv_Cons map_Suc_upt [symmetric] add.assoc del: upt_Suc)
  with step run tags fn show ?case by (simp add: add.assoc)
qed

lemma ucast_size_t_of_nat: "(ucast (word_of_nat k :: size_t) :: c_int) = word_of_nat k"
  by (simp add: unsigned_of_nat word_of_nat_eq_iff take_bit_take_bit)

lemma sint_c_int_of_nat: "k < 2 ^ 31 \<Longrightarrow> sint (word_of_nat k :: c_int) = int k"
  by (simp add: signed_of_nat signed_take_bit_int_eq_self)

lemma receive_loop_stop:
  "\<not> (n < 32 \<and> result = []) \<Longrightarrow> receive_loop av mk n result inp s = (Inr result, inp, s)"
  by (subst receive_loop.simps) auto

lemma receive_loop_step:
  "n < 32 \<Longrightarrow> receive_loop av mk n [] inp s =
     (case try_pop_video_packet inp of
              None \<Rightarrow> (Inr [], inp, s)
            | Some (pkt, inp') \<Rightarrow>
                (case decode av mk pkt s of
                   (Inl e, s') \<Rightarrow> (Inl e, inp', s')
                 | (Inr frames, s') \<Rightarrow> receive_loop av mk (n + 1) frames inp' s'))"
  by (subst receive_loop.simps) (simp split: option.split prod.split sum.split)

lemma receive_loop_run:
  assumes "receive_loop av mk n result inp s = (r, inp', s')" and "result = []"
  shows "\<exists>popped. inp = popped @ inp' \<and> n + length popped \<le> max n 32 \<and>
           (case r of
              Inl e \<Rightarrow> decode_all av mk popped s = (Inl e, s')
            | Inr frames \<Rightarrow>
                length frames \<le> 1 \<and> decode_all av mk popped s = (Inr frames, s') \<and>
                (frames = [] \<longrightarrow> inp' = [] \<or> 32 \<le> n + length popped) \<and>
                (frames \<noteq> [] \<longrightarrow> popped \<noteq> [] \<and> fst (decode_all av mk (butlast popped) s) = Inr []))"
  using assms
proof (induction av mk n result inp s arbitrary: r inp' s' rule: receive_loop.induct)
  case (1 av mk n result inp s)
  note prems = "1.prems" (1) [unfolded \<open>result = []\<close>]
  show ?case
  proof (cases "n < 32")
    case False
    with prems have "r = Inr []" "inp' = inp" "s' = s" by (simp_all add: receive_loop_stop)
    with False show ?thesis by simp
  next
    case True
    show ?thesis
    proof (cases inp)
      case Nil
      with True prems have "r = Inr []" "inp' = inp" "s' = s"
        by (simp_all add: receive_loop_step try_pop_video_packet_def)
      with Nil show ?thesis by simp
    next
      case (Cons pkt rest)
      then have pop: "try_pop_video_packet inp = Some (pkt, rest)"
        by (simp add: try_pop_video_packet_def)
      obtain d s1 where dec: "decode av mk pkt s = (d, s1)" by (cases "decode av mk pkt s")
      show ?thesis
      proof (cases d)
        case (Inl e)
        with True pop dec prems have "r = Inl e" "inp' = rest" "s' = s1"
          by (simp_all add: receive_loop_step)
        with Cons dec Inl True show ?thesis
          by (intro exI [of _ "[pkt]"]) simp
      next
        case (Inr frames)
        with dec have "decode av mk pkt s = (Inr frames, s1)" by simp
        then have len: "length frames \<le> 1" by (rule decode_at_most_one)
        show ?thesis
        proof (cases "frames = []")
          case False
          from True pop dec Inr prems have "receive_loop av mk (n + 1) frames rest s1 = (r, inp', s')"
            by (simp add: receive_loop_step)
          with False have "r = Inr frames" "inp' = rest" "s' = s1"
            by (simp_all add: receive_loop_stop)
          with Cons dec Inr True False len show ?thesis
            by (intro exI [of _ "[pkt]"]) simp
        next
          case empty: True
          from True pop dec Inr empty prems have rec: "receive_loop av mk (n + 1) [] rest s1 = (r, inp', s')"
            by (simp add: receive_loop_step)
          have rec': "receive_loop av mk (n + 1) (result @ frames) rest s1 = (r, inp', s')"
            using rec empty \<open>result = []\<close> by simp
          have "\<exists>popped. rest = popped @ inp' \<and> n + 1 + length popped \<le> max (n + 1) 32 \<and>
           (case r of
              Inl e \<Rightarrow> decode_all av mk popped s1 = (Inl e, s')
            | Inr frames \<Rightarrow>
                length frames \<le> 1 \<and> decode_all av mk popped s1 = (Inr frames, s') \<and>
                (frames = [] \<longrightarrow> inp' = [] \<or> 32 \<le> n + 1 + length popped) \<and>
                (frames \<noteq> [] \<longrightarrow> popped \<noteq> [] \<and> fst (decode_all av mk (butlast popped) s1) = Inr []))"
            using "1.IH" [OF _ pop refl dec [symmetric] Inr rec'] True empty \<open>result = []\<close> by simp
          then obtain popped where p: "rest = popped @ inp'" "n + 1 + length popped \<le> max (n + 1) 32"
            and c: "(case r of
              Inl e \<Rightarrow> decode_all av mk popped s1 = (Inl e, s')
            | Inr frames \<Rightarrow>
                length frames \<le> 1 \<and> decode_all av mk popped s1 = (Inr frames, s') \<and>
                (frames = [] \<longrightarrow> inp' = [] \<or> 32 \<le> n + 1 + length popped) \<and>
                (frames \<noteq> [] \<longrightarrow> popped \<noteq> [] \<and> fst (decode_all av mk (butlast popped) s1) = Inr []))"
            by blast
          show ?thesis
          proof (intro exI [of _ "pkt # popped"] conjI)
            show "inp = (pkt # popped) @ inp'" using Cons p by simp
            show "n + length (pkt # popped) \<le> max n 32" using p True by simp
            show "case r of
              Inl e \<Rightarrow> decode_all av mk (pkt # popped) s = (Inl e, s')
            | Inr frames \<Rightarrow>
                length frames \<le> 1 \<and> decode_all av mk (pkt # popped) s = (Inr frames, s') \<and>
                (frames = [] \<longrightarrow> inp' = [] \<or> 32 \<le> n + length (pkt # popped)) \<and>
                (frames \<noteq> [] \<longrightarrow> pkt # popped \<noteq> [] \<and> fst (decode_all av mk (butlast (pkt # popped)) s) = Inr [])"
              using c dec Inr empty
              by (cases r) (auto split: prod.splits sum.splits)
          qed
        qed
      qed
    qed
  qed
qed





lemma resolve_unsupported:
  "get_pixel_format pf = invalid \<Longrightarrow>
     get_pixel_format_desc fill pf w h = Inr \<lparr>pix_fmt = invalid, planes = []\<rparr>"
  by (simp add: get_pixel_format_desc_def Let_def)

lemma resolve_bgra_succeeds:
  "\<exists>d. get_pixel_format_desc fill PIX_FMT_BGRA w h = Inr d"
  by (simp add: get_pixel_format_desc_def Let_def)

lemma demo_decoder_ctor:
  "implementation_ctor demo_libav (demo_codec_context PIX_FMT_YUV420P 4 4) = Inr demo_decoder"
  by (simp add: implementation_ctor_def demo_libav_def demo_codec_context_def demo_decoder_def
      get_pixel_format_desc_def example_fill_def plane_def Let_def)

lemma demo_receive:
  "receive demo_libav demo_make_write_frame [Some 2, Some 1, Some 3] demo_decoder =
     (Inr [(0, 1)], [Some 3],
      demo_decoder\<lparr>codec_context := (demo_codec_context PIX_FMT_YUV420P 4 4)\<lparr>internal := 2\<rparr>,
                   frame_number := 1\<rparr>)"
  by (simp add: receive_def receive_loop.simps try_pop_video_packet_def decode_def
      demo_libav_def demo_decode_video2_def demo_make_write_frame_def demo_decoder_def
      demo_codec_context_def Let_def)

text \<open>
  C3. Start from a decoder whose counter is 0 (as the constructor and an EOF leave it) and
  decode \<open>N\<close> packets each of which yields a complete frame. The run produces \<open>N\<close>
  frames and no exception; the \<open>i\<close>-th carries the \<open>int\<close> to which the counter value
  \<open>i\<close> converts, which is the number \<open>i\<close> itself for every run of up to \<open>2^31\<close> frames,
  the range of \<open>int\<close>; the counter ends at \<open>N\<close>. Decoding the EOF sentinel (a null
  packet), in any state \<open>s0\<close>, returns no frame, flushes the codec context and sets the
  counter to 0, so the frame after it is numbered 0 again.
\<close>

theorem decode_sequence_numbers:
  assumes "frame_number s = 0" and "yields_frames av pkts (codec_context s)"
  shows "(\<exists>frames s'. decode_all av mk (map Some pkts) s = (Inr frames, s') \<and>
            map fst frames = map word_of_nat [0..<length pkts] \<and>
            (length pkts \<le> 2 ^ 31 \<longrightarrow> map (sint \<circ> fst) frames = map int [0..<length pkts]) \<and>
            frame_number s' = word_of_nat (length pkts)) \<and>
         decode av mk None s0 =
           (Inr [], s0\<lparr>codec_context := avcodec_flush_buffers av (codec_context s0), frame_number := 0\<rparr>)"
proof -
  from decode_all_numbers [OF assms(2), of mk] obtain frames s' where
    run: "decode_all av mk (map Some pkts) s = (Inr frames, s')"
    and tags: "map fst frames = map (\<lambda>k. ucast (frame_number s + word_of_nat k)) [0..<length pkts]"
    and fn: "frame_number s' = frame_number s + word_of_nat (length pkts)"
    by blast
  from tags assms(1) have words: "map fst frames = map word_of_nat [0..<length pkts]"
    by (simp add: ucast_size_t_of_nat)
  have ints: "map (sint \<circ> fst) frames = map int [0..<length pkts]" if "length pkts \<le> 2 ^ 31"
  proof -
    have "map (sint \<circ> fst) frames = map sint (map fst frames)" by simp
    also have "\<dots> = map (\<lambda>k. sint (word_of_nat k :: c_int)) [0..<length pkts]"
      by (simp add: words comp_def)
    also have "\<dots> = map int [0..<length pkts]"
    proof (rule map_cong [OF refl])
      fix k assume "k \<in> set [0..<length pkts]"
      with that have "k < 2 ^ 31" by simp
      then show "sint (word_of_nat k :: c_int) = int k" by (rule sint_c_int_of_nat)
    qed
    finally show ?thesis .
  qed
  from run words ints fn assms(1) show ?thesis
    by (simp add: decode_eof)
qed

theorem decode_sequence_numbers_witness:
  "\<exists>frames s'. decode_all demo_libav demo_make_write_frame (map Some [1, 3, 5]) demo_decoder = (Inr frames, s') \<and>
      map (sint \<circ> fst) frames = [0, 1, 2]"
proof -
  have a: "frame_number demo_decoder = 0" by (simp add: demo_decoder_def)
  have b: "yields_frames demo_libav [1, 3, 5] (codec_context demo_decoder)"
    by (simp add: demo_libav_def demo_decode_video2_def)
  from decode_sequence_numbers [OF a b, of demo_make_write_frame demo_decoder]
  obtain frames s' where
    run: "decode_all demo_libav demo_make_write_frame (map Some [1, 3, 5]) demo_decoder = (Inr frames, s')"
    and ints: "length [1::nat, 3, 5] \<le> 2 ^ 31 \<longrightarrow> map (sint \<circ> fst) frames = map int [0..<length [1::nat, 3, 5]]"
    by blast
  from ints have tags: "map (sint \<circ> fst) frames = [0, 1, 2]" by (simp add: upt_conv_Cons)
  show ?thesis by (intro exI [of _ frames] exI [of _ s'] conjI run tags)
qed

text \<open>
  C6. One call of \<open>receive\<close>, on any input queue and any decoder state: the packets it
  pops are a prefix \<open>popped\<close> of the queue, at most 32 of them, and its outcome is that of
  decoding exactly these in order. When it returns, it returns at most one frame; if it returns a
  frame, only the last packet popped yielded one (all the earlier ones yielded none, so popping
  stopped at the first frame); if it returns none, it stopped because the input had no packet
  left or because 32 packets had been popped.
\<close>

theorem receive_pops_at_most_32:
  assumes "receive av mk inp s = (r, inp', s')"
  shows "\<exists>popped. inp = popped @ inp' \<and> length popped \<le> 32 \<and>
           (case r of
              Inl e \<Rightarrow> decode_all av mk popped s = (Inl e, s')
            | Inr frames \<Rightarrow>
                length frames \<le> 1 \<and> decode_all av mk popped s = (Inr frames, s') \<and>
                (frames = [] \<longrightarrow> inp' = [] \<or> length popped = 32) \<and>
                (frames \<noteq> [] \<longrightarrow> popped \<noteq> [] \<and> fst (decode_all av mk (butlast popped) s) = Inr []))"
proof -
  from assms have "receive_loop av mk 0 [] inp s = (r, inp', s')" by (simp add: receive_def)
  from receive_loop_run [OF this refl] obtain popped where
    p: "inp = popped @ inp'" "length popped \<le> 32"
    and c: "case r of
              Inl e \<Rightarrow> decode_all av mk popped s = (Inl e, s')
            | Inr frames \<Rightarrow>
                length frames \<le> 1 \<and> decode_all av mk popped s = (Inr frames, s') \<and>
                (frames = [] \<longrightarrow> inp' = [] \<or> 32 \<le> 0 + length popped) \<and>
                (frames \<noteq> [] \<longrightarrow> popped \<noteq> [] \<and> fst (decode_all av mk (butlast popped) s) = Inr [])"
    by auto
  show ?thesis
  proof (intro exI [of _ popped] conjI p)
    show "case r of
              Inl e \<Rightarrow> decode_all av mk popped s = (Inl e, s')
            | Inr frames \<Rightarrow>
                length frames \<le> 1 \<and> decode_all av mk popped s = (Inr frames, s') \<and>
                (frames = [] \<longrightarrow> inp' = [] \<or> length popped = 32) \<and>
                (frames \<noteq> [] \<longrightarrow> popped \<noteq> [] \<and> fst (decode_all av mk (butlast popped) s) = Inr [])"
      using c p(2) by (cases r) auto
  qed
qed

theorem receive_pops_at_most_32_witness:
  "\<exists>popped. [Some 2, Some 1, Some (3::nat)] = popped @ [Some 3] \<and> length popped \<le> 32 \<and>
      fst (decode_all demo_libav demo_make_write_frame popped demo_decoder) = Inr [(0, 1)] \<and>
      fst (decode_all demo_libav demo_make_write_frame (butlast popped) demo_decoder) = Inr []"
  using receive_pops_at_most_32 [OF demo_receive] by auto

text \<open>
  C4. For a native pixel format the resolver does not support (\<open>get_pixel_format\<close> answers
  \<open>invalid\<close>), \<open>get_pixel_format_desc\<close> returns kind \<open>invalid\<close> with no planes, at
  every width and height. Constructing a decoder on a codec context with such a format: if
  \<open>sws_getContext\<close> returns null the constructor throws \<open>operation_failed\<close>; otherwise
  it succeeds, keeps the conversion context, and its descriptor is what
  \<open>get_pixel_format_desc\<close> returns for \<open>PIX_FMT_BGRA\<close> at the context's width and
  height.
\<close>

theorem unsupported_format_falls_back:
  assumes "get_pixel_format (cc_pix_fmt ctx) = invalid"
  shows "get_pixel_format_desc fill (cc_pix_fmt ctx) w h = Inr \<lparr>pix_fmt = invalid, planes = []\<rparr> \<and>
     (case sws_getContext av (cc_width ctx) (cc_height ctx) (cc_pix_fmt ctx)
             (cc_width ctx) (cc_height ctx) PIX_FMT_BGRA of
        None \<Rightarrow>
          implementation_ctor av ctx =
            Inl (operation_failed [msg_info ''Could not create software scaling context.'',
                                   errinfo_api_function ''sws_getContext''])
      | Some sws \<Rightarrow>
          (\<exists>impl. implementation_ctor av ctx = Inr impl \<and> sws_context impl = Some sws \<and>
             frame_number impl = 0 \<and>
             Inr (desc impl) =
               get_pixel_format_desc (avpicture_fill av) PIX_FMT_BGRA
                 (scast (cc_width ctx)) (scast (cc_height ctx))))"
proof -
  obtain d where d: "get_pixel_format_desc (avpicture_fill av) PIX_FMT_BGRA
      (scast (cc_width ctx)) (scast (cc_height ctx)) = Inr d"
    using resolve_bgra_succeeds by blast
  have native: "get_pixel_format_desc (avpicture_fill av) (cc_pix_fmt ctx)
      (scast (cc_width ctx)) (scast (cc_height ctx)) = Inr \<lparr>pix_fmt = invalid, planes = []\<rparr>"
    using assms by (rule resolve_unsupported)
  show ?thesis
    using assms
    by (simp add: resolve_unsupported implementation_ctor_def Let_def native d split: option.split)
qed

theorem unsupported_format_falls_back_witness:
  "get_pixel_format (PIX_FMT_other 2) = invalid \<and>
   implementation_ctor demo_libav (demo_codec_context (PIX_FMT_other 2) 0 4) =
     Inl (operation_failed [msg_info ''Could not create software scaling context.'',
                            errinfo_api_function ''sws_getContext'']) \<and>
   (\<exists>impl. implementation_ctor demo_libav (demo_codec_context (PIX_FMT_other 2) 4 4) = Inr impl \<and>
      desc impl = \<lparr>pix_fmt = bgra, planes = [plane 4 4 4]\<rparr>)"
proof -
  have a: "get_pixel_format (cc_pix_fmt (demo_codec_context (PIX_FMT_other 2) 0 4)) = invalid"
    by (simp add: demo_codec_context_def)
  have b: "get_pixel_format (cc_pix_fmt (demo_codec_context (PIX_FMT_other 2) 4 4)) = invalid"
    by (simp add: demo_codec_context_def)
  have bgra: "get_pixel_format_desc example_fill PIX_FMT_BGRA 4 4 = Inr \<lparr>pix_fmt = bgra, planes = [plane 4 4 4]\<rparr>"
    by (simp add: get_pixel_format_desc_def example_fill_def int_div_def Let_def)
  from unsupported_format_falls_back [OF a, of example_fill 0 4 demo_libav]
  have fail: "implementation_ctor demo_libav (demo_codec_context (PIX_FMT_other 2) 0 4) =
     Inl (operation_failed [msg_info ''Could not create software scaling context.'',
                            errinfo_api_function ''sws_getContext''])"
    by (simp add: demo_libav_def demo_codec_context_def demo_sws_getContext_def)
  from unsupported_format_falls_back [OF b, of example_fill 4 4 demo_libav]
  have ok: "\<exists>impl. implementation_ctor demo_libav (demo_codec_context (PIX_FMT_other 2) 4 4) = Inr impl \<and>
      desc impl = \<lparr>pix_fmt = bgra, planes = [plane 4 4 4]\<rparr>"
    using bgra by (auto simp: demo_libav_def demo_codec_context_def demo_sws_getContext_def)
  from fail ok show ?thesis by simp
qed







section \<open>Filter/Encode Stream: time stamps\<close>

lemma records_write:
  "records_source lib seen \<Longrightarrow> av_buffersrc_write_frame lib src frame av = (ret, av1) \<Longrightarrow>
     seen av1 = seen av @ [frame]"
  unfolding records_source_def by (metis snd_conv)

lemma records_close:
  "records_source lib seen \<Longrightarrow> av_buffersrc_close lib src p av = (ret, av1) \<Longrightarrow> seen av1 = seen av"
  unfolding records_source_def by (metis snd_conv)

lemma records_receive:
  "records_source lib seen \<Longrightarrow> avcodec_receive_packet lib e av = (x, av1) \<Longrightarrow> seen av1 = seen av"
  unfolding records_source_def by (metis snd_conv)

lemma records_get_frame:
  "records_source lib seen \<Longrightarrow> av_buffersink_get_frame lib snk av = (x, av1) \<Longrightarrow> seen av1 = seen av"
  unfolding records_source_def by (metis snd_conv)

lemma records_send_frame:
  "records_source lib seen \<Longrightarrow> avcodec_send_frame lib e frame av = (ret, av1) \<Longrightarrow> seen av1 = seen av"
  unfolding records_source_def by (metis snd_conv)

lemma drain_keeps_record:
  fixes lib :: "('av, 'ctx, 'f, 'x, 'y) libavcodec"
  assumes "drain lib s cb av = Some y"
  shows "records_source lib seen \<longrightarrow> seen (snd (snd y)) = seen av"
proof (rule drain.raw_induct
    [where P = "\<lambda>lib s cb av y. records_source lib seen \<longrightarrow> seen (snd (snd y)) = seen av",
      OF _ assms])
  fix drain' :: "('av, 'ctx, 'f, 'x, 'y) libavcodec \<Rightarrow> ('ctx, 'x) Stream \<Rightarrow> 'y AVPacket list \<Rightarrow> 'av
      \<Rightarrow> ((failure + unit) \<times> 'y AVPacket list \<times> 'av) option"
    and lib s cb av y
  assume ih: "\<And>s cb av b y. drain' s cb av b = Some y \<Longrightarrow>
      records_source s seen \<longrightarrow> seen (snd (snd y)) = seen b"
    and step: "(case avcodec_receive_packet lib (enc s) av of
      ((ret, pkt), av1) \<Rightarrow>
        if ret = AVERROR EAGAIN
        then case av_buffersink_get_frame lib (sink s) av1 of
             ((ret2, frame), av2) \<Rightarrow>
               if ret2 = AVERROR EAGAIN then Some (Inr (), cb, av2)
               else if ret2 = AVERROR_EOF
                    then case avcodec_send_frame lib (enc s) None av2 of
                         (ret3, av3) \<Rightarrow>
                           case FF_RET ret3 ''avcodec_send_frame'' of
                           Inl e \<Rightarrow> Some (Inl e, cb, av3)
                           | Inr x \<Rightarrow> drain' lib s cb av3
                    else case FF_RET ret2 ''av_buffersink_get_frame'' of
                         Inl e \<Rightarrow> Some (Inl e, cb, av2)
                         | Inr x \<Rightarrow>
                             case avcodec_send_frame lib (enc s) (Some frame) av2 of
                             (ret3, av3) \<Rightarrow>
                               case FF_RET ret3 ''avcodec_send_frame'' of
                               Inl e \<Rightarrow> Some (Inl e, cb, av3)
                               | Inr x \<Rightarrow> drain' lib s cb av3
        else if ret = AVERROR_EOF then Some (Inr (), cb, av1)
             else case FF_RET ret ''avcodec_receive_packet'' of
                  Inl e \<Rightarrow> Some (Inl e, cb, av1)
                  | Inr x \<Rightarrow>
                      drain' lib s
                       (cb @ [av_packet_rescale_ts lib (pkt\<lparr>stream_index := index (st s)\<rparr>)
                          (enc_time_base (enc s)) (st_time_base (st s))])
                       av1) = Some y"
  show "records_source lib seen \<longrightarrow> seen (snd (snd y)) = seen av"
  proof
    assume rec: "records_source lib seen"
    obtain ret pkt av1 where a: "avcodec_receive_packet lib (enc s) av = ((ret, pkt), av1)"
      by (metis surj_pair)
    obtain ret2 frame av2 where b: "av_buffersink_get_frame lib (sink s) av1 = ((ret2, frame), av2)"
      by (metis surj_pair)
    obtain ret3 av3 where c: "avcodec_send_frame lib (enc s) None av2 = (ret3, av3)"
      by (metis surj_pair)
    obtain ret4 av4 where d: "avcodec_send_frame lib (enc s) (Some frame) av2 = (ret4, av4)"
      by (metis surj_pair)
    note k = records_receive [OF rec a] records_get_frame [OF rec b] records_send_frame [OF rec c]
      records_send_frame [OF rec d]
    from step show "seen (snd (snd y)) = seen av"
      using k rec ih
      by (auto simp: a b c d split: if_splits sum.splits)
  qed
qed

lemma Stream_send_record:
  assumes rec: "records_source lib seen"
    and run: "Stream_send lib (Some f) fd s av = Some (r, cb, s', av')"
  shows "s' = snd (stamp lib f fd s) \<and> seen av' = seen av @ [fst (stamp lib f fd s)]"
proof -
  obtain frame s1 where st: "stamp lib f fd s = (frame, s1)" by (cases "stamp lib f fd s")
  obtain ret av1 where w: "av_buffersrc_write_frame lib (source s1) frame av = (ret, av1)"
    by (metis surj_pair)
  note k = records_write [OF rec w]
  show ?thesis
  proof (cases "FF_RET ret ''av_buffersrc_write_frame''")
    case (Inl e)
    with run st w k show ?thesis by (simp add: Stream_send_def)
  next
    case (Inr u)
    with run st w obtain y where d: "drain lib s1 [] av1 = Some y" and y: "(r, cb, s', av') = (fst y, fst (snd y), s1, snd (snd y))"
      by (auto simp: Stream_send_def split: option.splits)
    from drain_keeps_record [OF d, of seen] rec have "seen (snd (snd y)) = seen av1" by simp
    with y k st show ?thesis by simp
  qed
qed

lemma stamp_video:
  "enc_codec_type (enc s) = AVMEDIA_TYPE_VIDEO \<Longrightarrow>
     stamp lib f fd s = (Some ((make_av_video_frame lib f fd)\<lparr>frame_pts := pts s\<rparr>), s\<lparr>pts := pts s + 1\<rparr>)"
  by (simp add: stamp_def Let_def)

lemma stamp_audio:
  "enc_codec_type (enc s) = AVMEDIA_TYPE_AUDIO \<Longrightarrow>
     stamp lib f fd s =
       (Some ((make_av_audio_frame lib f fd)\<lparr>frame_pts := pts s\<rparr>),
        s\<lparr>pts := pts s + scast (nb_samples (make_av_audio_frame lib f fd))\<rparr>)"
  by (simp add: stamp_def Let_def)

lemma send_all_video:
  assumes rec: "records_source lib seen"
    and "enc_codec_type (enc s) = AVMEDIA_TYPE_VIDEO"
    and "send_all lib fd (map Some fs) s av = Some (r, cb, s', av')"
  shows "\<exists>n\<le>length fs.
           seen av' = seen av @ stamped_video lib fd (pts s) (take n fs) \<and>
           (r = Inr () \<longrightarrow> n = length fs \<and> pts s' = pts s + word_of_nat n)"
  using assms(2,3)
proof (induction fs arbitrary: s av r cb)
  case Nil
  then show ?case by simp
next
  case (Cons f fs)
  from Cons.prems(2) obtain r1 cb1 s1 av1 where
    one: "Stream_send lib (Some f) fd s av = Some (r1, cb1, s1, av1)"
    by (auto split: option.splits)
  from Stream_send_record [OF rec one] Cons.prems(1)
  have s1: "s1 = s\<lparr>pts := pts s + 1\<rparr>"
    and av1: "seen av1 = seen av @ [Some ((make_av_video_frame lib f fd)\<lparr>frame_pts := pts s\<rparr>)]"
    by (simp_all add: stamp_video)
  show ?case
  proof (cases r1)
    case (Inl e)
    with one Cons.prems(2) have "r = Inl e" "av' = av1" by simp_all
    with av1 show ?thesis by (intro exI [of _ 1]) simp
  next
    case (Inr u)
    with one Cons.prems(2) obtain cb2 where
      rest: "send_all lib fd (map Some fs) s1 av1 = Some (r, cb2, s', av')"
      by (auto split: option.splits)
    from s1 Cons.prems(1) have v: "enc_codec_type (enc s1) = AVMEDIA_TYPE_VIDEO" by simp
    from Cons.IH [OF v rest] obtain n where n: "n \<le> length fs"
      and fr: "seen av' = seen av1 @ stamped_video lib fd (pts s1) (take n fs)"
      and ok: "r = Inr () \<longrightarrow> n = length fs \<and> pts s' = pts s1 + word_of_nat n"
      by blast
    show ?thesis
      using n fr ok s1 av1 by (intro exI [of _ "Suc n"]) (simp add: add.assoc)
  qed
qed

lemma send_all_audio:
  assumes rec: "records_source lib seen"
    and "enc_codec_type (enc s) = AVMEDIA_TYPE_AUDIO"
    and "send_all lib fd (map Some fs) s av = Some (r, cb, s', av')"
  shows "\<exists>n\<le>length fs.
           seen av' = seen av @ stamped_audio lib fd (pts s) (take n fs) \<and>
           (r = Inr () \<longrightarrow> n = length fs)"
  using assms(2,3)
proof (induction fs arbitrary: s av r cb)
  case Nil
  then show ?case by simp
next
  case (Cons f fs)
  from Cons.prems(2) obtain r1 cb1 s1 av1 where
    one: "Stream_send lib (Some f) fd s av = Some (r1, cb1, s1, av1)"
    by (auto split: option.splits)
  from Stream_send_record [OF rec one] Cons.prems(1)
  have s1: "s1 = s\<lparr>pts := pts s + scast (nb_samples (make_av_audio_frame lib f fd))\<rparr>"
    and av1: "seen av1 = seen av @ [Some ((make_av_audio_frame lib f fd)\<lparr>frame_pts := pts s\<rparr>)]"
    by (simp_all add: stamp_audio)
  show ?case
  proof (cases r1)
    case (Inl e)
    with one Cons.prems(2) have "r = Inl e" "av' = av1" by simp_all
    with av1 show ?thesis by (intro exI [of _ 1]) simp
  next
    case (Inr u)
    with one Cons.prems(2) obtain cb2 where
      rest: "send_all lib fd (map Some fs) s1 av1 = Some (r, cb2, s', av')"
      by (auto split: option.splits)
    from s1 Cons.prems(1) have v: "enc_codec_type (enc s1) = AVMEDIA_TYPE_AUDIO" by simp
    from Cons.IH [OF v rest] obtain n where n: "n \<le> length fs"
      and fr: "seen av' = seen av1 @ stamped_audio lib fd (pts s1) (take n fs)"
      and ok: "r = Inr () \<longrightarrow> n = length fs"
      by blast
    show ?thesis
      using n fr ok s1 av1 by (intro exI [of _ "Suc n"]) simp
  qed
qed

lemma length_stamped_video: "length (stamped_video lib fd k fs) = length fs"
  by (induction fs arbitrary: k) simp_all

lemma length_stamped_audio: "length (stamped_audio lib fd k fs) = length fs"
  by (induction fs arbitrary: k) simp_all

lemma stamped_video_nth:
  "i < length fs \<Longrightarrow>
     stamped_video lib fd k fs ! i = Some ((make_av_video_frame lib (fs ! i) fd)\<lparr>frame_pts := k + word_of_nat i\<rparr>)"
proof (induction fs arbitrary: k i)
  case Nil
  then show ?case by simp
next
  case (Cons f fs)
  show ?case
  proof (cases i)
    case 0
    then show ?thesis by simp
  next
    case (Suc j)
    with Cons.prems have "j < length fs" by simp
    from Cons.IH [OF this, of "k + 1"] Suc show ?thesis by (simp add: add.assoc)
  qed
qed

lemma stamped_audio_nth:
  "i < length fs \<Longrightarrow>
     stamped_audio lib fd k fs ! i =
       Some ((make_av_audio_frame lib (fs ! i) fd)
               \<lparr>frame_pts := k + word_of_int (sum_list (take i (sample_counts lib fd fs)))\<rparr>)"
proof (induction fs arbitrary: k i)
  case Nil
  then show ?case by simp
next
  case (Cons f fs)
  show ?case
  proof (cases i)
    case 0
    then show ?thesis by simp
  next
    case (Suc j)
    with Cons.prems have "j < length fs" by simp
    from Cons.IH [OF this, of "k + scast (nb_samples (make_av_audio_frame lib f fd))"] Suc
    show ?thesis
      by (simp add: sample_counts_def add.assoc)
  qed
qed

lemma sint_int64_of_nat: "i < 2 ^ 63 \<Longrightarrow> sint (word_of_nat i :: int64_t) = int i"
  by (simp add: signed_of_nat signed_take_bit_int_eq_self)

lemma sint_int64_of_int: "- (2 ^ 63) \<le> k \<Longrightarrow> k < 2 ^ 63 \<Longrightarrow> sint (word_of_int k :: int64_t) = k"
  by (simp add: signed_of_int signed_take_bit_int_eq_self)

lemma observed_pts_all_frames:
  assumes "\<forall>i<length xs. \<exists>frame. xs ! i = Some frame"
  shows "length (observed_pts xs) = length xs \<and>
         (\<forall>i<length xs. map_option (sint \<circ> frame_pts) (xs ! i) = Some (observed_pts xs ! i))"
  using assms
proof (induction xs)
  case Nil
  then show ?case by simp
next
  case (Cons x xs)
  from Cons.prems [rule_format, of 0] obtain frame where x: "x = Some frame" by auto
  have "\<forall>i<length xs. \<exists>frame. xs ! i = Some frame"
  proof (intro allI impI)
    fix i assume "i < length xs"
    then have "Suc i < length (x # xs)" by simp
    from Cons.prems [rule_format, OF this] show "\<exists>frame. xs ! i = Some frame" by simp
  qed
  from Cons.IH [OF this] have len: "length (observed_pts xs) = length xs"
    and nth: "\<And>i. i < length xs \<Longrightarrow> map_option (sint \<circ> frame_pts) (xs ! i) = Some (observed_pts xs ! i)"
    by simp_all
  show ?case
  proof (intro conjI allI impI)
    show "length (observed_pts (x # xs)) = length (x # xs)" using x len by simp
    fix i assume "i < length (x # xs)"
    then show "map_option (sint \<circ> frame_pts) ((x # xs) ! i) = Some (observed_pts (x # xs) ! i)"
      using x nth by (cases i) simp_all
  qed
qed

lemma sum_list_take_mono:
  assumes "\<forall>n\<in>set (c :: int list). 0 \<le> n" and "i \<le> j"
  shows "0 \<le> sum_list (take i c) \<and> sum_list (take i c) \<le> sum_list (take j c) \<and>
         sum_list (take j c) \<le> sum_list c"
proof -
  have nonneg: "0 \<le> sum_list xs" if "set xs \<subseteq> set c" for xs
    using that assms(1) by (intro sum_list_nonneg) auto
  from assms(2) have "take j c = take i c @ take (j - i) (drop i c)"
    by (metis le_add_diff_inverse take_add)
  then have a: "sum_list (take j c) = sum_list (take i c) + sum_list (take (j - i) (drop i c))"
    by (metis sum_list_append)
  have "set (take (j - i) (drop i c)) \<subseteq> set c"
    by (meson set_drop_subset set_take_subset subset_trans)
  from nonneg [OF this] a have le: "sum_list (take i c) \<le> sum_list (take j c)" by simp
  have b: "sum_list c = sum_list (take j c) + sum_list (drop j c)"
    by (metis append_take_drop_id sum_list_append)
  from nonneg [OF set_drop_subset] b have "sum_list (take j c) \<le> sum_list c" by simp
  with le nonneg [OF set_take_subset] show ?thesis by simp
qed

text \<open>
  C2. Let the library keep a record of the frames written to the graph's source, so that what
  the filter graph observes can be read from the library state. Take a video stream and an
  audio stream whose counters are 0, each with an empty record, and on each a run of \<open>send\<close>
  calls with non-empty frames that has returned (with or without an exception in its last
  call). Every frame the filter graph received is the frame \<open>make_av_video_frame\<close> or
  \<open>make_av_audio_frame\<close> built from the input frame, with its time stamp overwritten by
  the stream's counter: the \<open>i\<close>-th video frame (counting from 0) carries the \<open>int64_t\<close>
  value of \<open>i\<close>, the \<open>i\<close>-th audio frame the \<open>int64_t\<close> value of the sum of the sample
  counts of the frames before it. Read as integers these are \<open>i\<close> and that sum whenever they
  lie in the range of \<open>int64_t\<close>. If no call threw, every input frame was received. So the
  stamps do not depend on what the frame builder put into the time stamp, start at 0, and
  each frame starts where the previous one ended. As long as the counter does not wrap, the
  video stamps are 0, 1, 2, ... and strictly increasing, and the audio stamps, for sample
  counts that are not negative, are the running sums and non-decreasing.
\<close>

theorem stream_pts_from_counter:
  assumes rec: "records_source lib seen"
    and "enc_codec_type (enc sv) = AVMEDIA_TYPE_VIDEO" and "pts sv = 0" and "seen av = []"
    and "send_all lib fd (map Some fs) sv av = Some (r, cb, sv', av')"
    and "enc_codec_type (enc sa) = AVMEDIA_TYPE_AUDIO" and "pts sa = 0" and "seen bv = []"
    and "send_all lib fd (map Some gs) sa bv = Some (q, cb', sa', bv')"
  shows "length (seen av') \<le> length fs \<and>
    (r = Inr () \<longrightarrow> length (seen av') = length fs) \<and>
    (\<forall>i<length (seen av').
        seen av' ! i = Some ((make_av_video_frame lib (fs ! i) fd)\<lparr>frame_pts := word_of_nat i\<rparr>) \<and>
        (i < 2 ^ 63 \<longrightarrow> map_option (sint \<circ> frame_pts) (seen av' ! i) = Some (int i))) \<and>
    (length (seen av') \<le> 2 ^ 63 \<longrightarrow>
        observed_pts (seen av') = map int [0..<length (seen av')] \<and>
        sorted_wrt (<) (observed_pts (seen av'))) \<and>
    length (seen bv') \<le> length gs \<and>
    (q = Inr () \<longrightarrow> length (seen bv') = length gs) \<and>
    (\<forall>i<length (seen bv').
        seen bv' ! i =
          Some ((make_av_audio_frame lib (gs ! i) fd)
                  \<lparr>frame_pts := word_of_int (sum_list (take i (sample_counts lib fd gs)))\<rparr>) \<and>
        (- (2 ^ 63) \<le> sum_list (take i (sample_counts lib fd gs)) \<and>
         sum_list (take i (sample_counts lib fd gs)) < 2 ^ 63 \<longrightarrow>
           map_option (sint \<circ> frame_pts) (seen bv' ! i)
             = Some (sum_list (take i (sample_counts lib fd gs))))) \<and>
    ((\<forall>n\<in>set (sample_counts lib fd gs). 0 \<le> n) \<and> sum_list (sample_counts lib fd gs) < 2 ^ 63 \<longrightarrow>
        observed_pts (seen bv') =
          map (\<lambda>i. sum_list (take i (sample_counts lib fd gs))) [0..<length (seen bv')] \<and>
        sorted (observed_pts (seen bv')))"
proof -
  from send_all_video [OF rec assms(2) assms(5)] assms(3,4) obtain n where n: "n \<le> length fs"
    and v: "seen av' = stamped_video lib fd 0 (take n fs)"
    and vok: "r = Inr () \<longrightarrow> n = length fs"
    by auto
  from n v have vlen: "length (seen av') = n" by (simp add: length_stamped_video)
  have vnth: "seen av' ! i = Some ((make_av_video_frame lib (fs ! i) fd)\<lparr>frame_pts := word_of_nat i\<rparr>)"
    if "i < n" for i
    using that n by (simp add: v stamped_video_nth)
  from send_all_audio [OF rec assms(6) assms(9)] assms(7,8) obtain m where m: "m \<le> length gs"
    and a: "seen bv' = stamped_audio lib fd 0 (take m gs)"
    and aok: "q = Inr () \<longrightarrow> m = length gs"
    by auto
  let ?c = "sample_counts lib fd gs"
  from m a have alen: "length (seen bv') = m" by (simp add: length_stamped_audio)
  have take_counts: "take i (sample_counts lib fd (take m gs)) = take i ?c"
    if "i < m" for i
    using that by (simp add: sample_counts_def take_map [symmetric] min_def)
  have anth: "seen bv' ! i =
      Some ((make_av_audio_frame lib (gs ! i) fd)\<lparr>frame_pts := word_of_int (sum_list (take i ?c))\<rparr>)"
    if "i < m" for i
    using that m by (simp add: a stamped_audio_nth take_counts)
  have vall: "\<forall>i<length (seen av'). \<exists>frame. seen av' ! i = Some frame"
    using vnth vlen by simp
  have aall: "\<forall>i<length (seen bv'). \<exists>frame. seen bv' ! i = Some frame"
    using anth alen by simp
  note vo = observed_pts_all_frames [OF vall]
  note ao = observed_pts_all_frames [OF aall]
  have vpts: "observed_pts (seen av') ! i = int i" if "i < n" "n \<le> 2 ^ 63" for i
  proof -
    from that have "i < 2 ^ 63" by simp
    moreover from vo vlen that(1)
    have "map_option (sint \<circ> frame_pts) (seen av' ! i) = Some (observed_pts (seen av') ! i)"
      by simp
    ultimately show ?thesis using vnth [OF that(1)] by (simp add: sint_int64_of_nat)
  qed
  have vlist: "observed_pts (seen av') = map int [0..<n]" if "n \<le> 2 ^ 63"
    using vo vlen vpts that by (intro nth_equalityI) simp_all
  have vsorted: "sorted_wrt (<) (observed_pts (seen av'))" if "n \<le> 2 ^ 63"
    unfolding vlist [OF that] by (simp add: sorted_wrt_iff_nth_less)
  have apts: "observed_pts (seen bv') ! i = sum_list (take i ?c)"
    if "i < m" and nn: "\<forall>n\<in>set ?c. 0 \<le> n" and tot: "sum_list ?c < 2 ^ 63" for i
  proof -
    from sum_list_take_mono [OF nn order_refl, of i]
    have "0 \<le> sum_list (take i ?c)" "sum_list (take i ?c) < 2 ^ 63" using tot by simp_all
    moreover from ao alen that(1)
    have "map_option (sint \<circ> frame_pts) (seen bv' ! i) = Some (observed_pts (seen bv') ! i)"
      by simp
    ultimately show ?thesis using anth [OF that(1)] by (simp add: sint_int64_of_int)
  qed
  have alist: "observed_pts (seen bv') = map (\<lambda>i. sum_list (take i ?c)) [0..<m]"
    if "\<forall>n\<in>set ?c. 0 \<le> n" "sum_list ?c < 2 ^ 63"
    using ao alen apts that by (intro nth_equalityI) simp_all
  have asorted: "sorted (observed_pts (seen bv'))"
    if nn: "\<forall>n\<in>set ?c. 0 \<le> n" and tot: "sum_list ?c < 2 ^ 63"
    unfolding alist [OF that] using sum_list_take_mono [OF nn]
    by (simp add: sorted_iff_nth_mono)
  show ?thesis
    using n vok m aok vlist vsorted alist asorted
    by (simp add: vlen alen vnth anth sint_int64_of_nat sint_int64_of_int)
qed

lemmas demo_codec_defs =
  demo_libavcodec_def demo_make_frame_def demo_write_frame_def demo_close_def
  demo_receive_packet_def demo_get_frame_def demo_send_frame_def demo_rescale_ts_def
  demo_av0_def demo_enc_def demo_stream_def

lemma demo_records_source: "records_source demo_libavcodec source_log"
  by (simp add: records_source_def demo_libavcodec_def demo_write_frame_def demo_close_def
      demo_receive_packet_def demo_get_frame_def demo_send_frame_def
      split: option.split list.split)

lemma demo_video_run:
  "send_all demo_libavcodec hd1080i50 (map Some [7, 8, 9]) (demo_stream AVMEDIA_TYPE_VIDEO 0) demo_av0 =
     Some (Inr (),
           [\<lparr>stream_index = 0, packet_data = 7\<rparr>, \<lparr>stream_index = 0, packet_data = 8\<rparr>,
            \<lparr>stream_index = 0, packet_data = 9\<rparr>],
           (demo_stream AVMEDIA_TYPE_VIDEO 0)\<lparr>pts := 3\<rparr>,
           demo_av0
             \<lparr>source_log := [Some \<lparr>frame_pts = 0, nb_samples = 960, frame_data = 7\<rparr>,
                             Some \<lparr>frame_pts = 1, nb_samples = 960, frame_data = 8\<rparr>,
                             Some \<lparr>frame_pts = 2, nb_samples = 960, frame_data = 9\<rparr>]\<rparr>)"
  by (simp add: Stream_send_def stamp_def drain.simps FF_RET_def AVERROR_def EAGAIN_def
      AVERROR_EOF_def Let_def demo_codec_defs)

lemma demo_audio_run:
  "send_all demo_libavcodec hd1080i50 (map Some [7, 8]) (demo_stream AVMEDIA_TYPE_AUDIO 1) demo_av0 =
     Some (Inr (),
           [\<lparr>stream_index = 1, packet_data = 7\<rparr>, \<lparr>stream_index = 1, packet_data = 8\<rparr>],
           (demo_stream AVMEDIA_TYPE_AUDIO 1)\<lparr>pts := 1920\<rparr>,
           demo_av0
             \<lparr>source_log := [Some \<lparr>frame_pts = 0, nb_samples = 960, frame_data = 7\<rparr>,
                             Some \<lparr>frame_pts = 960, nb_samples = 960, frame_data = 8\<rparr>]\<rparr>)"
  by (simp add: Stream_send_def stamp_def drain.simps FF_RET_def AVERROR_def EAGAIN_def
      AVERROR_EOF_def Let_def demo_codec_defs)

theorem stream_pts_from_counter_witness:
  "records_source demo_libavcodec source_log \<and>
   (\<exists>cb s' av'. send_all demo_libavcodec hd1080i50 (map Some [7, 8, 9])
                   (demo_stream AVMEDIA_TYPE_VIDEO 0) demo_av0 = Some (Inr (), cb, s', av') \<and>
      observed_pts (source_log av') = [0, 1, 2] \<and> sorted_wrt (<) (observed_pts (source_log av'))) \<and>
   (\<exists>cb s' av'. send_all demo_libavcodec hd1080i50 (map Some [7, 8])
                   (demo_stream AVMEDIA_TYPE_AUDIO 1) demo_av0 = Some (Inr (), cb, s', av') \<and>
      observed_pts (source_log av') = [0, 960] \<and> sorted (observed_pts (source_log av')))"
proof -
  let ?av = "demo_av0
             \<lparr>source_log := [Some \<lparr>frame_pts = 0, nb_samples = 960, frame_data = 7\<rparr>,
                             Some \<lparr>frame_pts = 1, nb_samples = 960, frame_data = 8\<rparr>,
                             Some \<lparr>frame_pts = 2, nb_samples = 960, frame_data = 9\<rparr>]\<rparr>"
  let ?bv = "demo_av0
             \<lparr>source_log := [Some \<lparr>frame_pts = 0, nb_samples = 960, frame_data = 7\<rparr>,
                             Some \<lparr>frame_pts = 960, nb_samples = 960, frame_data = 8\<rparr>]\<rparr>"
  have v: "enc_codec_type (enc (demo_stream AVMEDIA_TYPE_VIDEO 0)) = AVMEDIA_TYPE_VIDEO"
    "pts (demo_stream AVMEDIA_TYPE_VIDEO 0) = 0" "source_log demo_av0 = []"
    by (simp_all add: demo_stream_def demo_enc_def demo_av0_def)
  have a: "enc_codec_type (enc (demo_stream AVMEDIA_TYPE_AUDIO 1)) = AVMEDIA_TYPE_AUDIO"
    "pts (demo_stream AVMEDIA_TYPE_AUDIO 1) = 0" "source_log demo_av0 = []"
    by (simp_all add: demo_stream_def demo_enc_def demo_av0_def)
  note t = stream_pts_from_counter [OF demo_records_source v demo_video_run a demo_audio_run]
  have counts: "sample_counts demo_libavcodec hd1080i50 [7, 8] = [960, 960]"
    by (simp add: sample_counts_def demo_libavcodec_def demo_make_frame_def)
  have vlen: "length (source_log ?av) = 3" and alen: "length (source_log ?bv) = 2" by simp_all
  have u3: "[0..<3::nat] = [0, 1, 2]" and u2: "[0..<2::nat] = [0, 1]" by code_simp+
  from t have "length (source_log ?av) \<le> 2 ^ 63 \<longrightarrow>
        observed_pts (source_log ?av) = map int [0..<length (source_log ?av)] \<and>
        sorted_wrt (<) (observed_pts (source_log ?av))" by blast
  then have vs: "observed_pts (source_log ?av) = [0, 1, 2] \<and> sorted_wrt (<) (observed_pts (source_log ?av))"
    unfolding vlen u3 by simp
  from t have "(\<forall>n\<in>set (sample_counts demo_libavcodec hd1080i50 [7, 8]). 0 \<le> n) \<and>
        sum_list (sample_counts demo_libavcodec hd1080i50 [7, 8]) < 2 ^ 63 \<longrightarrow>
        observed_pts (source_log ?bv) =
          map (\<lambda>i. sum_list (take i (sample_counts demo_libavcodec hd1080i50 [7, 8])))
            [0..<length (source_log ?bv)] \<and>
        sorted (observed_pts (source_log ?bv))" by blast
  then have as: "observed_pts (source_log ?bv) = [0, 960] \<and> sorted (observed_pts (source_log ?bv))"
    unfolding alen counts u2 by simp
  from demo_records_source demo_video_run demo_audio_run vs as show ?thesis by blast
qed

section \<open>Filter/Encode Stream: graph construction\<close>



lemma then_do_ok: "m s = (Inr a, s') \<Longrightarrow> then_do m f s = f a s'"
  by (simp add: then_do_def)

lemma FF_RET_Inr: "FF_RET ret func = Inr u \<longleftrightarrow> 0 \<le> ret"
  by (auto simp: FF_RET_def)
















lemma keeps_log_graph_alloc: "keeps_log (graph_alloc lib)"
  by (auto simp: keeps_log_def graph_alloc_def on_lib_def split: prod.splits)

lemma keeps_log_graph_parse: "keeps_log (graph_parse lib spec)"
  by (auto simp: keeps_log_def graph_parse_def on_lib_def split: prod.splits sum.splits)





































section \<open>Media Writer: end of stream\<close>






















end
